theory Spec2Isabelle
  imports
    Complex_Main
    "HOL-Library.Multiset"
    "HOL-Library.List_Lexorder"
    "HOL-Library.Char_ord"
    "HOL-Library.AList"
begin

section \<open>The metric evaluator of the test harness\<close>

text \<open>
  A shallow embedding of \<^verbatim>\<open>perform_assessment\<close>
  (\<^verbatim>\<open>test-harness/mistk_test_harness/evaluator.py\<close>). The function is one long
  body; the embedding cuts it at its comments into the format check (lines 44-47), the two
  tables (49-94), reconciliation (96-101), the matrices (103-158), the catalogue (160-177),
  the dispatch loop (179-246) and the report (248-252).

  Python strings are \<^typ>\<open>string\<close>; their order is the lexicographic order of the
  character codes, as Python compares \<^verbatim>\<open>str\<close>. A dictionary is an association
  list updated with \<^const>\<open>AList.update\<close>, which replaces the value of a key in place
  and appends a new key at the end, as a Python \<^verbatim>\<open>dict\<close> does. An exception is
  a value of \<open>error\<close>. What the function does to the outside is recorded, in
  order, as a list of \<open>event\<close>s.
\<close>

subsection \<open>Errors, events and values\<close>

datatype error =
    Exception string              \<comment> \<open>\<^verbatim>\<open>raise Exception(msg)\<close>, line 47\<close>
  | FileError string              \<comment> \<open>\<^verbatim>\<open>open\<close> or the csv reader on an input file\<close>
  | ConfigError string            \<comment> \<open>\<^verbatim>\<open>json.load\<close> or deserialisation of a catalogue\<close>
  | ModuleNotFoundError string    \<comment> \<open>\<^verbatim>\<open>importlib.import_module\<close>, line 182\<close>
  | NotInList string              \<comment> \<open>\<^verbatim>\<open>ValueError\<close> of \<^verbatim>\<open>list.index\<close>, line 125\<close>
  | IndexError                    \<comment> \<open>a subscript out of range, line 126\<close>
  | TypeError                     \<comment> \<open>subscripting a missing (NaN) cell, line 126\<close>
  | FloatError string             \<comment> \<open>\<^verbatim>\<open>ValueError\<close> of a float conversion\<close>
  | UnboundLocalError string      \<comment> \<open>reading a local name that no branch has bound\<close>

datatype json =
    JNull
  | JBool bool
  | JNumber real
  | JString string
  | JArray "json list"
  | JObject "(string \<times> json) list"

text \<open>
  What a metric may return, by the four cases of lines 218-242. An \<^verbatim>\<open>ndarray\<close>
  with at least one axis is given by its \<^verbatim>\<open>tolist()\<close>, a numpy scalar by its
  native value, a tuple or list of numbers by the list \<^verbatim>\<open>np.array(x).tolist()\<close>
  yields.
\<close>

datatype evalresult =
    NdArray "json list"
  | NpGeneric json
  | PySequence "json list"
  | PyOther json

text \<open>The matrices the builder produces, one constructor per shape.\<close>

datatype matrix =
    Indicator "nat list list"              \<comment> \<open>\<^verbatim>\<open>label_mlb.transform\<close>\<close>
  | Scores "real list list"                \<comment> \<open>the confidence matrix of lines 120-127\<close>
  | Tokens "string list option list"       \<comment> \<open>\<^verbatim>\<open>.str.split().values.tolist()\<close>\<close>
  | Floats "real list option list"         \<comment> \<open>rows converted to float64 arrays\<close>
  | Column "string option list"            \<comment> \<open>the raw \<^verbatim>\<open>.values\<close> of a column\<close>

text \<open>
  A keyword argument is either a value of \<^verbatim>\<open>default_args\<close>, loaded from JSON, or
  one of the five data objects of the run. The slot records which object it is: two
  matrices may be equal as values and still be different objects.
\<close>

datatype slot = TruthLabels | TruthBounds | PredictionLabels | PredictionScores | PredictionBounds

datatype arg = Default json | Bound slot matrix

type_synonym kwargs = "(string \<times> arg) list"

text \<open>
  A call either returns or raises an exception derived from \<^verbatim>\<open>Exception\<close>, the
  class the handler of line 214 names.
\<close>

datatype outcome = Raises | Returns evalresult

type_synonym callable = "kwargs \<Rightarrow> outcome"

text \<open>A module maps an attribute name to the callable bound to it, if any.\<close>

type_synonym pymodule = "string \<Rightarrow> callable option"

datatype event =
    Opened string                       \<comment> \<open>\<^verbatim>\<open>open(path)\<close> for reading\<close>
  | Logged string                       \<comment> \<open>\<^verbatim>\<open>logging.warn\<close> or \<^verbatim>\<open>logging.error\<close>\<close>
  | Invoked string string kwargs        \<comment> \<open>\<^verbatim>\<open>method(**args)\<close>: package, method, arguments\<close>
  | Wrote string json                   \<comment> \<open>the report file and its content\<close>

subsection \<open>Tables and descriptors\<close>

text \<open>
  A row of the ground-truth table after lines 87-94, and a row of the prediction table
  after lines 63-70. The csv reader yields strings, and no cell is converted. A column
  the file does not supply is padded with NaN: \<open>None\<close>. Every data row is taken to
  carry its first two fields, \<^verbatim>\<open>rowid\<close> and \<^verbatim>\<open>labels\<close>; these columns
  then hold strings (dtype \<^verbatim>\<open>object\<close>), which is the branch that the conditionals
  on the dtype take in lines 106-158.
\<close>

record row =
  rowid :: string
  labels :: string
  bounds :: "string option"

record prediction = row +
  confidence :: "string option"

record data_parameters =
  truth_labels :: "string option"
  truth_bounds :: "string option"
  prediction_labels :: "string option"
  prediction_scores :: "string option"
  prediction_bounds :: "string option"

text \<open>
  The descriptor, with the fields the dispatch loop reads. In \<^verbatim>\<open>metrics.json\<close> the
  values of \<^verbatim>\<open>default_args\<close> are JSON (\<open>json metric\<close>); in the running program
  they are keyword arguments (\<open>arg metric\<close>). The attribute \<^verbatim>\<open>method\<close> is the
  field \<open>method_name\<close>, as its own name is reserved.
\<close>

record 'v metric =
  package :: string
  method_name :: string
  default_args :: "(string \<times> 'v) list option"
  data_parameters :: data_parameters

text \<open>
  Everything the function takes from outside its arguments: the two csv files as the
  tables lines 49-94 make of them, the two catalogues beside the module, the import
  system, the float parser and the clock.
\<close>

record environment =
  read_predictions :: "string \<Rightarrow> error + prediction list"
  read_ground_truth :: "string \<Rightarrow> error + row list"
  module_dir :: string
  defaults_json :: "error + (string \<times> string list) list"
  metrics_json :: "error + json metric list"
  import_module :: "string \<Rightarrow> pymodule option"
  float64 :: "string \<Rightarrow> real option"
  timestamp :: string

text \<open>The local names that are bound when the dispatch loop starts.\<close>

record locals =
  eval_type :: string
  truth_df :: "row list"
  results_df :: "prediction list"
  truth_labels_matrix :: matrix
  results_labels_matrix :: matrix
  confidence_matrix :: "matrix option"
  label_classes :: "string list"

text \<open>
  The state of the dispatch loop. \<^verbatim>\<open>metrics_list\<close> holds references to the objects of
  \<^verbatim>\<open>metric_objects\<close>; a reference is the key \<^verbatim>\<open>package.method\<close> under which
  the object is stored, so that two entries of the list denote the same object exactly
  when they are the same key.
\<close>

record state =
  metric_objects :: "(string \<times> arg metric) list"
  modules_cache :: "(string \<times> pymodule) list"
  eval_dict :: "(string \<times> json) list"
  trace :: "event list"

subsection \<open>Strings\<close>

fun startswith :: "string \<Rightarrow> string \<Rightarrow> bool" where
  "startswith s [] = True"
| "startswith [] (c # p) = False"
| "startswith (d # s) (c # p) = (d = c \<and> startswith s p)"

text \<open>\<^verbatim>\<open>sub in s\<close> on two strings: \<open>sub\<close> occurs in \<open>s\<close> as a substring.\<close>

fun py_in :: "string \<Rightarrow> string \<Rightarrow> bool" where
  "py_in sub [] = (sub = [])"
| "py_in sub (c # s) = (startswith (c # s) sub \<or> py_in sub s)"

text \<open>\<^verbatim>\<open>os.path.join(a, b)\<close> for a relative \<open>b\<close>.\<close>

definition path_join :: "string \<Rightarrow> string \<Rightarrow> string" where
  "path_join a b = (if a = [] then b else if last a = CHR ''/'' then a @ b else a @ ''/'' @ b)"

text \<open>The ASCII characters \<^verbatim>\<open>str.split()\<close> treats as white space.\<close>

definition isspace :: "char \<Rightarrow> bool" where
  "isspace c = (c \<in> set [CHR 0x09, CHR 0x0A, CHR 0x0B, CHR 0x0C, CHR 0x0D,
                            CHR 0x1C, CHR 0x1D, CHR 0x1E, CHR 0x1F, CHR 0x20])"

fun split_from :: "string \<Rightarrow> string \<Rightarrow> string list" where
  "split_from cur [] = (if cur = [] then [] else [cur])"
| "split_from cur (c # s) =
     (if isspace c then (if cur = [] then split_from [] s else cur # split_from [] s)
      else split_from (cur @ [c]) s)"

text \<open>\<^verbatim>\<open>s.split()\<close>: the maximal runs of characters that are not white space.\<close>

definition str_split :: "string \<Rightarrow> string list" where
  "str_split s = split_from [] s"

text \<open>\<^verbatim>\<open>column.str.split()\<close>: a missing cell stays missing.\<close>

definition str_split_col :: "string option list \<Rightarrow> string list option list" where
  "str_split_col col = map (map_option str_split) col"

definition hasnans :: "'a option list \<Rightarrow> bool" where
  "hasnans col = (None \<in> set col)"

subsection \<open>The format check (lines 44-47)\<close>

definition unsupported_msg :: "string \<Rightarrow> string" where
  "unsupported_msg eval_input_format =
     ''EvaluationInputFormat '' @ eval_input_format @
     '' is not supported by this Metric Evaluator, only 'predictions' are supported''"

definition format_supported :: "string \<Rightarrow> bool" where
  "format_supported eval_input_format = py_in eval_input_format ''predictions''"

subsection \<open>Reconciliation (lines 96-101)\<close>

text \<open>
  \<^verbatim>\<open>truth_df.loc[truth_df['rowid'].isin(results_df['rowid'])]\<close> keeps the rows whose
  identifier is a member of the prediction identifiers; \<^verbatim>\<open>sort_values(by='rowid')\<close>
  orders a table by the identifier. Among rows with the same identifier the model keeps
  the order of the file; pandas does not promise it, and no property below depends on it.
\<close>

definition match_truth :: "prediction list \<Rightarrow> row list \<Rightarrow> row list" where
  "match_truth results truth = filter (\<lambda>r. rowid r \<in> set (map rowid results)) truth"

definition sort_values :: "('a::type) row_scheme list \<Rightarrow> 'a row_scheme list" where
  "sort_values df = sort_key rowid df"

definition reconcile :: "prediction list \<Rightarrow> row list \<Rightarrow> row list \<times> prediction list" where
  "reconcile results truth = (sort_values (match_truth results truth), sort_values results)"

subsection \<open>The matrices (lines 103-158)\<close>

definition is_multi :: "string \<Rightarrow> bool" where
  "is_multi t = (t = ''MultilabelClassification'' \<or> t = ''MulticlassClassification'')"

text \<open>
  \<^verbatim>\<open>MultiLabelBinarizer\<close>: \<^verbatim>\<open>fit\<close> stores the sorted set of all the labels of
  its rows in \<^verbatim>\<open>classes_\<close>; \<^verbatim>\<open>transform\<close> gives each row its indicator over
  \<^verbatim>\<open>classes_\<close>. The argument of \<^verbatim>\<open>fit\<close> on line 112,
  \<^verbatim>\<open>np.append(a, b, axis=0)\<close>, is taken as the rows of \<open>a\<close> followed by the rows
  of \<open>b\<close>; how numpy lays the rows out as arrays is not modelled.
\<close>

definition fit :: "string list list \<Rightarrow> string list" where
  "fit y = sort (remdups (concat y))"

definition transform :: "string list \<Rightarrow> string list list \<Rightarrow> nat list list" where
  "transform classes y = map (\<lambda>r. map (\<lambda>c. if c \<in> set r then 1 else 0) classes) y"

text \<open>\<^verbatim>\<open>xs.index(x)\<close>: the first position of \<open>x\<close>; \<open>None\<close> is its ValueError.\<close>

fun index :: "'a list \<Rightarrow> 'a \<Rightarrow> nat option" where
  "index [] x = None"
| "index (y # ys) x = (if y = x then Some 0 else map_option Suc (index ys x))"

text \<open>The inner loop of lines 124-126, over \<^verbatim>\<open>enumerate(row)\<close>.\<close>

fun fill_row ::
  "(string \<Rightarrow> real option) \<Rightarrow> string list \<Rightarrow> string list option list \<Rightarrow> nat \<Rightarrow>
   (nat \<times> string) list \<Rightarrow> real list \<Rightarrow> error + real list" where
  "fill_row f classes parsed_confidence row_index [] confidence_row = Inr confidence_row"
| "fill_row f classes parsed_confidence row_index ((col_index, col) # rest) confidence_row =
     (case index classes col of
        None \<Rightarrow> Inl (NotInList col)
      | Some label_pos \<Rightarrow>
          if row_index < length parsed_confidence then
            (case parsed_confidence ! row_index of
               None \<Rightarrow> Inl TypeError
             | Some toks \<Rightarrow>
                 if col_index < length toks then
                   (case f (toks ! col_index) of
                      None \<Rightarrow> Inl (FloatError (toks ! col_index))
                    | Some v \<Rightarrow>
                        fill_row f classes parsed_confidence row_index rest
                          (confidence_row[label_pos := v]))
                 else Inl IndexError)
          else Inl IndexError)"

text \<open>
  The outer loop of lines 122-127, over \<^verbatim>\<open>enumerate(parsed_results_labels)\<close>. Each
  row starts from \<^verbatim>\<open>np.zeros(shape[1])\<close>; every row of the matrix is assigned.
\<close>

fun fill_matrix ::
  "(string \<Rightarrow> real option) \<Rightarrow> string list \<Rightarrow> string list option list \<Rightarrow>
   (nat \<times> string list) list \<Rightarrow> error + real list list" where
  "fill_matrix f classes parsed_confidence [] = Inr []"
| "fill_matrix f classes parsed_confidence ((row_index, r) # rest) =
     (case fill_row f classes parsed_confidence row_index (enumerate 0 r)
             (replicate (length classes) 0) of
        Inl e \<Rightarrow> Inl e
      | Inr confidence_row \<Rightarrow>
          (case fill_matrix f classes parsed_confidence rest of
             Inl e \<Rightarrow> Inl e
           | Inr m \<Rightarrow> Inr (confidence_row # m)))"

definition build_confidence ::
  "(string \<Rightarrow> real option) \<Rightarrow> string list \<Rightarrow> string list list \<Rightarrow> string list option list \<Rightarrow>
   error + real list list" where
  "build_confidence f classes parsed_results_labels parsed_confidence =
     fill_matrix f classes parsed_confidence (enumerate 0 parsed_results_labels)"

text \<open>\<^verbatim>\<open>np.array(item, dtype=np.float64)\<close> on every row; a missing row stays NaN.\<close>

fun to_floats :: "(string \<Rightarrow> real option) \<Rightarrow> string list \<Rightarrow> error + real list" where
  "to_floats f [] = Inr []"
| "to_floats f (t # ts) =
     (case f t of
        None \<Rightarrow> Inl (FloatError t)
      | Some v \<Rightarrow> (case to_floats f ts of Inl e \<Rightarrow> Inl e | Inr vs \<Rightarrow> Inr (v # vs)))"

fun float_rows ::
  "(string \<Rightarrow> real option) \<Rightarrow> string list option list \<Rightarrow> error + real list option list" where
  "float_rows f [] = Inr []"
| "float_rows f (None # rest) =
     (case float_rows f rest of Inl e \<Rightarrow> Inl e | Inr m \<Rightarrow> Inr (None # m))"
| "float_rows f (Some item # rest) =
     (case to_floats f item of
        Inl e \<Rightarrow> Inl e
      | Inr a \<Rightarrow> (case float_rows f rest of Inl e \<Rightarrow> Inl e | Inr m \<Rightarrow> Inr (Some a # m)))"

definition build_multi ::
  "(string \<Rightarrow> real option) \<Rightarrow> string \<Rightarrow> row list \<Rightarrow> prediction list \<Rightarrow> error + locals" where
  "build_multi f t truth results =
     (let parsed_truth_labels = map (\<lambda>r. str_split (labels r)) truth;
          parsed_results_labels = map (\<lambda>r. str_split (labels r)) results;
          classes = fit (parsed_truth_labels @ parsed_results_labels);
          L = \<lparr>eval_type = t, truth_df = truth, results_df = results,
               truth_labels_matrix = Indicator (transform classes parsed_truth_labels),
               results_labels_matrix = Indicator (transform classes parsed_results_labels),
               confidence_matrix = None, label_classes = classes\<rparr>
      in if hasnans (map confidence results) then Inr L
         else (case build_confidence f classes parsed_results_labels
                      (str_split_col (map confidence results)) of
                 Inl e \<Rightarrow> Inl e
               | Inr m \<Rightarrow> Inr (L\<lparr>confidence_matrix := Some (Scores m)\<rparr>)))"

definition build_regression ::
  "(string \<Rightarrow> real option) \<Rightarrow> string \<Rightarrow> row list \<Rightarrow> prediction list \<Rightarrow> error + locals" where
  "build_regression f t truth results =
     (case float_rows f (map (\<lambda>r. Some (str_split (labels r))) truth) of
        Inl e \<Rightarrow> Inl e
      | Inr tm \<Rightarrow>
          (case float_rows f (map (\<lambda>r. Some (str_split (labels r))) results) of
             Inl e \<Rightarrow> Inl e
           | Inr rm \<Rightarrow>
               (case float_rows f (str_split_col (map confidence results)) of
                  Inl e \<Rightarrow> Inl e
                | Inr cm \<Rightarrow>
                    Inr \<lparr>eval_type = t, truth_df = truth, results_df = results,
                         truth_labels_matrix = Floats tm, results_labels_matrix = Floats rm,
                         confidence_matrix = Some (Floats cm), label_classes = []\<rparr>)))"

definition build_default :: "string \<Rightarrow> row list \<Rightarrow> prediction list \<Rightarrow> locals" where
  "build_default t truth results =
     \<lparr>eval_type = t, truth_df = truth, results_df = results,
      truth_labels_matrix = Tokens (map (\<lambda>r. Some (str_split (labels r))) truth),
      results_labels_matrix = Tokens (map (\<lambda>r. Some (str_split (labels r))) results),
      confidence_matrix = Some (Tokens (str_split_col (map confidence results))),
      label_classes = []\<rparr>"

definition build_matrices ::
  "(string \<Rightarrow> real option) \<Rightarrow> string \<Rightarrow> row list \<Rightarrow> prediction list \<Rightarrow> error + locals" where
  "build_matrices f t truth results =
     (if is_multi t then build_multi f t truth results
      else if t = ''Regression'' then build_regression f t truth results
      else Inr (build_default t truth results))"

subsection \<open>The catalogue (lines 160-177)\<close>

text \<open>
  Modelled from the spec: \<^verbatim>\<open>utils.deserialize_model\<close> and the class \<^verbatim>\<open>Metric\<close>
  are not in the source at hand. A descriptor has the fields \<^verbatim>\<open>package\<close>,
  \<^verbatim>\<open>method\<close>, \<^verbatim>\<open>default_args\<close> and \<^verbatim>\<open>data_parameters\<close>, read from the
  JSON record as they are.
\<close>

definition deserialize_model :: "json metric \<Rightarrow> arg metric" where
  "deserialize_model d =
     \<lparr>package = package d, method_name = method_name d,
      default_args = map_option (map (\<lambda>(k, v). (k, Default v))) (default_args d),
      data_parameters = data_parameters d\<rparr>"

definition metric_key :: "'v metric \<Rightarrow> string" where
  "metric_key m = package m @ ''.'' @ method_name m"

definition load_metric_objects :: "json metric list \<Rightarrow> (string \<times> arg metric) list" where
  "load_metric_objects metric_dict_list =
     fold (\<lambda>metric_dict objs.
             let metric_object = deserialize_model metric_dict
             in AList.update (metric_key metric_object) metric_object objs)
          metric_dict_list []"

text \<open>
  Lines 173-177: the names of the evaluation type's default set that the catalogue
  resolves, in order; each stands for the object stored under it.
\<close>

definition select_metrics ::
  "(string \<times> string list) list \<Rightarrow> (string \<times> arg metric) list \<Rightarrow> string \<Rightarrow> string list" where
  "select_metrics default_metrics objs t =
     filter (\<lambda>metric_name. case map_of objs metric_name of None \<Rightarrow> False | Some _ \<Rightarrow> True)
       (case map_of default_metrics t of None \<Rightarrow> [] | Some names \<Rightarrow> names)"

subsection \<open>The dispatch loop (lines 179-246)\<close>

text \<open>
  \<^verbatim>\<open>if name and cond: args[name] = value\<close>. A name is false when it is absent or
  the empty string.
\<close>

definition bind :: "string option \<Rightarrow> bool \<Rightarrow> arg \<Rightarrow> kwargs \<Rightarrow> kwargs" where
  "bind name cond v args =
     (case name of
        None \<Rightarrow> args
      | Some n \<Rightarrow> if n \<noteq> [] \<and> cond then AList.update n v args else args)"

text \<open>
  Lines 197-210. The column \<^verbatim>\<open>confidence\<close> is always in the prediction table,
  since lines 69-70 create it when the file has none. The confidence matrix is a name
  that the multilabel branch binds only under the condition of line 116.
\<close>

definition bind_args :: "locals \<Rightarrow> data_parameters \<Rightarrow> kwargs \<Rightarrow> error + kwargs" where
  "bind_args L dp args =
     (let args1 = bind (truth_labels dp) True (Bound TruthLabels (truth_labels_matrix L)) args;
          args2 = bind (truth_bounds dp) (\<not> hasnans (map bounds (truth_df L)))
                    (Bound TruthBounds (Column (map bounds (truth_df L)))) args1;
          args3 = bind (prediction_labels dp) True
                    (Bound PredictionLabels (results_labels_matrix L)) args2
      in case (case prediction_scores dp of
                 None \<Rightarrow> Inr args3
               | Some n \<Rightarrow>
                   if n \<noteq> [] \<and> \<not> hasnans (map confidence (results_df L)) then
                     (case confidence_matrix L of
                        None \<Rightarrow> Inl (UnboundLocalError ''confidence_matrix'')
                      | Some m \<Rightarrow> Inr (AList.update n (Bound PredictionScores m) args3))
                   else Inr args3) of
           Inl e \<Rightarrow> Inl e
         | Inr args4 \<Rightarrow>
             Inr (bind (prediction_bounds dp) (\<not> hasnans (map bounds (results_df L)))
                    (Bound PredictionBounds (Column (map bounds (results_df L)))) args4))"

text \<open>
  Lines 225-227: \<^verbatim>\<open>evalResultAsDict[str(label)] = evalResultAsList[index]\<close> over
  \<^verbatim>\<open>enumerate(label_classes)\<close>. The labels are strings already.
\<close>

definition label_dict :: "string list \<Rightarrow> json list \<Rightarrow> (string \<times> json) list" where
  "label_dict classes evalResultAsList =
     fold (\<lambda>(i, label) d. AList.update label (evalResultAsList ! i) d) (enumerate 0 classes) []"

text \<open>Lines 218-242.\<close>

definition normalize_result :: "locals \<Rightarrow> evalresult \<Rightarrow> json" where
  "normalize_result L evalResult =
     (case evalResult of
        NdArray evalResultAsList \<Rightarrow>
          if is_multi (eval_type L) then
            (if length evalResultAsList = length (label_classes L)
             then JObject (label_dict (label_classes L) evalResultAsList)
             else JArray evalResultAsList)
          else JArray evalResultAsList
      | NpGeneric x \<Rightarrow> x
      | PySequence xs \<Rightarrow> JArray xs
      | PyOther x \<Rightarrow> x)"

text \<open>
  Lines 192-246, for a resolved module. \<^verbatim>\<open>args = metric.default_args or {}\<close> is the
  descriptor's own dictionary when that is not empty, and a new dictionary otherwise;
  in the first case every binding of lines 197-210 is a write to the descriptor.
\<close>

definition invoke :: "locals \<Rightarrow> state \<Rightarrow> string \<Rightarrow> arg metric \<Rightarrow> pymodule \<Rightarrow> error option \<times> state" where
  "invoke L st ref metric modl =
     (case modl (method_name metric) of
        None \<Rightarrow>
          (None, st\<lparr>trace := trace st @
                      [Logged (method_name metric @ '' does not exist in '' @ package metric)]\<rparr>)
      | Some f \<Rightarrow>
          (case bind_args L (data_parameters metric)
                  (case default_args metric of None \<Rightarrow> [] | Some d \<Rightarrow> d) of
             Inl e \<Rightarrow> (Some e, st)
           | Inr args \<Rightarrow>
               (let objs = (case default_args metric of
                              None \<Rightarrow> metric_objects st
                            | Some d \<Rightarrow>
                                if d = [] then metric_objects st
                                else AList.update ref (metric\<lparr>default_args := Some args\<rparr>)
                                       (metric_objects st));
                    st1 = st\<lparr>metric_objects := objs,
                             trace := trace st @ [Invoked (package metric) (method_name metric) args]\<rparr>
                in case f args of
                     Raises \<Rightarrow>
                       (None, st1\<lparr>trace := trace st1 @
                                     [Logged (''Something bad happened calling '' @ method_name metric)]\<rparr>)
                   | Returns evalResult \<Rightarrow>
                       (None, st1\<lparr>eval_dict := AList.update (method_name metric)
                                     (normalize_result L evalResult) (eval_dict st1)\<rparr>))))"

text \<open>
  Lines 180-190, for one entry of \<^verbatim>\<open>metrics_list\<close>. \<^verbatim>\<open>import_module\<close> returns a
  module object, which is true, or raises; the exception is not handled. A reference
  always resolves, as line 176 only appends objects it has found.
\<close>

definition dispatch :: "environment \<Rightarrow> locals \<Rightarrow> state \<Rightarrow> string \<Rightarrow> error option \<times> state" where
  "dispatch env L st ref =
     (case map_of (metric_objects st) ref of
        None \<Rightarrow> (None, st)
      | Some metric \<Rightarrow>
          (case map_of (modules_cache st) (package metric) of
             None \<Rightarrow>
               (case import_module env (package metric) of
                  None \<Rightarrow> (Some (ModuleNotFoundError (package metric)), st)
                | Some modl \<Rightarrow>
                    invoke L
                      (st\<lparr>modules_cache :=
                            AList.update (package metric) modl (modules_cache st)\<rparr>)
                      ref metric modl)
           | Some modl \<Rightarrow> invoke L st ref metric modl))"

fun run_metrics :: "environment \<Rightarrow> locals \<Rightarrow> state \<Rightarrow> string list \<Rightarrow> error option \<times> state" where
  "run_metrics env L st [] = (None, st)"
| "run_metrics env L st (ref # rest) =
     (case dispatch env L st ref of
        (Some e, st') \<Rightarrow> (Some e, st')
      | (None, st') \<Rightarrow> run_metrics env L st' rest)"

subsection \<open>The whole function\<close>

definition report_name :: "environment \<Rightarrow> string \<Rightarrow> string" where
  "report_name env evaluation_path = evaluation_path @ ''/eval_results_'' @ timestamp env @ ''.json''"

text \<open>Lines 160-252, from the reconciled tables and the matrices.\<close>

definition assess :: "environment \<Rightarrow> locals \<Rightarrow> string \<Rightarrow> event list \<Rightarrow> error option \<times> event list" where
  "assess env L evaluation_path tr =
     (let tr1 = tr @ [Opened (path_join (module_dir env) ''defaults.json'')]
      in case defaults_json env of
           Inl e \<Rightarrow> (Some e, tr1)
         | Inr default_metrics \<Rightarrow>
             (let tr2 = tr1 @ [Opened (path_join (module_dir env) ''metrics.json'')]
              in case metrics_json env of
                   Inl e \<Rightarrow> (Some e, tr2)
                 | Inr metric_dict_list \<Rightarrow>
                     (let objs = load_metric_objects metric_dict_list;
                          metrics_list = select_metrics default_metrics objs (eval_type L)
                      in case run_metrics env L
                                \<lparr>metric_objects = objs, modules_cache = [], eval_dict = [],
                                 trace = tr2\<rparr> metrics_list of
                           (Some e, st) \<Rightarrow> (Some e, trace st)
                         | (None, st) \<Rightarrow>
                             (None, trace st @
                                [Wrote (report_name env evaluation_path)
                                   (JObject (eval_dict st))]))))"

definition perform_assessment ::
  "environment \<Rightarrow> string \<Rightarrow> string \<Rightarrow> string \<Rightarrow> string \<Rightarrow> string \<Rightarrow> error option \<times> event list" where
  "perform_assessment env t eval_input_path eval_input_format ground_truth_path evaluation_path =
     (if \<not> format_supported eval_input_format then
        (Some (Exception (unsupported_msg eval_input_format)),
         [Logged (unsupported_msg eval_input_format)])
      else
        (let full_predictions_path = path_join eval_input_path ''predictions.csv'';
             tr1 = [Opened full_predictions_path]
         in case read_predictions env full_predictions_path of
              Inl e \<Rightarrow> (Some e, tr1)
            | Inr results \<Rightarrow>
                (let full_ground_truth_path = path_join ground_truth_path ''ground_truth.csv'';
                     tr2 = tr1 @ [Opened full_ground_truth_path]
                 in case read_ground_truth env full_ground_truth_path of
                      Inl e \<Rightarrow> (Some e, tr2)
                    | Inr truth \<Rightarrow>
                        (case reconcile results truth of
                           (truth', results') \<Rightarrow>
                             (case build_matrices (float64 env) t truth' results' of
                                Inl e \<Rightarrow> (Some e, tr2)
                              | Inr L \<Rightarrow> assess env L evaluation_path tr2)))))"

subsection \<open>Observations on a run\<close>

text \<open>
  The outcome of \<^verbatim>\<open>getattr(import_module(p), m)(**args)\<close>, when both lookups
  succeed.
\<close>

definition call :: "environment \<Rightarrow> string \<Rightarrow> string \<Rightarrow> kwargs \<Rightarrow> outcome option" where
  "call env p m args =
     (case import_module env p of
        None \<Rightarrow> None
      | Some modl \<Rightarrow> (case modl m of None \<Rightarrow> None | Some f \<Rightarrow> Some (f args)))"

text \<open>
  The result mapping that a sequence of events accounts for: every invocation that
  returned stores its normalised value under its method name.
\<close>

fun replay :: "environment \<Rightarrow> locals \<Rightarrow> event list \<Rightarrow> (string \<times> json) list \<Rightarrow> (string \<times> json) list" where
  "replay env L [] d = d"
| "replay env L (Invoked p m args # tr) d =
     (case call env p m args of
        Some (Returns r) \<Rightarrow> replay env L tr (AList.update m (normalize_result L r) d)
      | _ \<Rightarrow> replay env L tr d)"
| "replay env L (_ # tr) d = replay env L tr d"

text \<open>The cache only holds what the import system gives.\<close>

definition cache_ok :: "environment \<Rightarrow> state \<Rightarrow> bool" where
  "cache_ok env st =
     (\<forall>p modl. map_of (modules_cache st) p = Some modl \<longrightarrow> import_module env p = Some modl)"

text \<open>
  What a run may change in the stored descriptors, given the events \<open>tr\<close> it added:
  no key comes or goes, and only \<^verbatim>\<open>default_args\<close> of a descriptor may differ.
\<close>

definition frame :: "event list \<Rightarrow> (string \<times> arg metric) list \<Rightarrow> (string \<times> arg metric) list \<Rightarrow> bool" where
  "frame tr objs objs' =
     ((\<forall>k. map_of objs k = None \<longrightarrow> map_of objs' k = None) \<and>
      (\<forall>k m. map_of objs k = Some m \<longrightarrow>
         (\<exists>m'. map_of objs' k = Some m' \<and> package m' = package m \<and>
               method_name m' = method_name m \<and>
               data_parameters m' = data_parameters m \<and>
               (default_args m' = default_args m \<or>
                (\<exists>d. default_args m = Some d \<and> d \<noteq> []) \<and>
                (\<exists>args. default_args m' = Some args \<and>
                        Invoked (package m) (method_name m) args \<in> set tr)))))"

definition scores_free :: "kwargs \<Rightarrow> bool" where
  "scores_free args = (\<forall>n M. (n, Bound PredictionScores M) \<notin> set args)"

definition inv5 :: "state \<Rightarrow> bool" where
  "inv5 st =
     ((\<forall>k m d. (k, m) \<in> set (metric_objects st) \<longrightarrow> default_args m = Some d \<longrightarrow> scores_free d) \<and>
      (\<forall>p m args. Invoked p m args \<in> set (trace st) \<longrightarrow> scores_free args))"



subsection \<open>A small catalogue and small tables\<close>

text \<open>
  Inputs on which the properties below are exercised: three predictions and four
  ground-truth rows with two labels each, a float parser for the tokens that occur, two
  importable packages and a catalogue of five descriptors, one of them in a package that
  does not exist.
\<close>

definition demo_float64 :: "string \<Rightarrow> real option" where
  "demo_float64 s =
     map_of [(''0.9'', 9 / 10), (''0.8'', 8 / 10), (''0.7'', 7 / 10), (''0.6'', 6 / 10),
             (''0.1'', 1 / 10)] s"

definition demo_predictions :: "prediction list" where
  "demo_predictions =
     [\<lparr>rowid = ''3'', labels = ''a b'', bounds = None, confidence = Some ''0.9 0.6''\<rparr>,
      \<lparr>rowid = ''1'', labels = ''a c'', bounds = None, confidence = Some ''0.8 0.1''\<rparr>,
      \<lparr>rowid = ''2'', labels = ''b c'', bounds = None, confidence = Some ''0.7 0.6''\<rparr>]"

text \<open>The same predictions from a file whose last row has no confidence field.\<close>

definition demo_predictions_nan :: "prediction list" where
  "demo_predictions_nan =
     [\<lparr>rowid = ''3'', labels = ''a b'', bounds = None, confidence = Some ''0.9 0.6''\<rparr>,
      \<lparr>rowid = ''1'', labels = ''a c'', bounds = None, confidence = Some ''0.8 0.1''\<rparr>,
      \<lparr>rowid = ''2'', labels = ''b c'', bounds = None, confidence = None\<rparr>]"

definition demo_truth :: "row list" where
  "demo_truth =
     [\<lparr>rowid = ''2'', labels = ''b c'', bounds = None\<rparr>,
      \<lparr>rowid = ''4'', labels = ''a b'', bounds = None\<rparr>,
      \<lparr>rowid = ''1'', labels = ''a b'', bounds = None\<rparr>,
      \<lparr>rowid = ''3'', labels = ''a b'', bounds = None\<rparr>]"

definition labels_only :: data_parameters where
  "labels_only =
     \<lparr>truth_labels = Some ''y_true'', truth_bounds = None, prediction_labels = Some ''y_pred'',
      prediction_scores = None, prediction_bounds = None\<rparr>"

definition labels_and_scores :: data_parameters where
  "labels_and_scores =
     \<lparr>truth_labels = Some ''y_true'', truth_bounds = None, prediction_labels = None,
      prediction_scores = Some ''y_score'', prediction_bounds = None\<rparr>"

definition demo_catalogue :: "json metric list" where
  "demo_catalogue =
     [\<lparr>package = ''sklearn.metrics'', method_name = ''accuracy_score'', default_args = None,
       data_parameters = labels_only\<rparr>,
      \<lparr>package = ''sklearn.metrics'', method_name = ''f1_score'',
       default_args = Some [(''average'', JNull)], data_parameters = labels_only\<rparr>,
      \<lparr>package = ''sklearn.metrics'', method_name = ''roc_auc_score'', default_args = None,
       data_parameters = labels_and_scores\<rparr>,
      \<lparr>package = ''other.metrics'', method_name = ''accuracy_score'', default_args = None,
       data_parameters = labels_only\<rparr>,
      \<lparr>package = ''nosuch.metrics'', method_name = ''jaccard_score'', default_args = None,
       data_parameters = labels_only\<rparr>]"

text \<open>
  Two modules. \<^verbatim>\<open>roc_auc_score\<close> raises when it is called without
  \<^verbatim>\<open>y_score\<close>, as a function does on a missing required argument.
\<close>

definition sklearn_metrics :: pymodule where
  "sklearn_metrics name =
     (if name = ''accuracy_score'' then Some (\<lambda>args. Returns (NpGeneric (JNumber (2 / 3))))
      else if name = ''f1_score'' then
        Some (\<lambda>args. Returns (NdArray [JNumber 1, JNumber (2 / 3), JNumber (1 / 2)]))
      else if name = ''roc_auc_score'' then
        Some (\<lambda>args. case map_of args ''y_score'' of
                        None \<Rightarrow> Raises
                      | Some s \<Rightarrow> Returns (NpGeneric (JNumber 1)))
      else None)"

definition other_metrics :: pymodule where
  "other_metrics name =
     (if name = ''accuracy_score'' then Some (\<lambda>args. Returns (NpGeneric (JNumber 0)))
      else None)"

definition demo_import :: "string \<Rightarrow> pymodule option" where
  "demo_import p =
     (if p = ''sklearn.metrics'' then Some sklearn_metrics
      else if p = ''other.metrics'' then Some other_metrics
      else None)"

definition demo_env :: "prediction list \<Rightarrow> (string \<times> string list) list \<Rightarrow> environment" where
  "demo_env P defaults =
     \<lparr>read_predictions = (\<lambda>path. if path = ''in/predictions.csv'' then Inr P
                                  else Inl (FileError path)),
      read_ground_truth = (\<lambda>path. if path = ''gt/ground_truth.csv'' then Inr demo_truth
                                   else Inl (FileError path)),
      module_dir = ''harness'',
      defaults_json = Inr defaults,
      metrics_json = Inr demo_catalogue,
      import_module = demo_import,
      float64 = demo_float64,
      timestamp = ''1700000000''\<rparr>"

text \<open>The locals of a multilabel run on the reconciled demo tables.\<close>

definition demo_locals :: locals where
  "demo_locals =
     \<lparr>eval_type = ''MultilabelClassification'',
      truth_df = fst (reconcile demo_predictions demo_truth),
      results_df = snd (reconcile demo_predictions demo_truth),
      truth_labels_matrix = Indicator [[1, 1, 0], [0, 1, 1], [1, 1, 0]],
      results_labels_matrix = Indicator [[1, 0, 1], [0, 1, 1], [1, 1, 0]],
      confidence_matrix =
        Some (Scores [[4 / 5, 0, 1 / 10], [0, 7 / 10, 3 / 5], [9 / 10, 3 / 5, 0]]),
      label_classes = [''a'', ''b'', ''c'']\<rparr>"

text \<open>The state in which the dispatch loop starts on the demo catalogue.\<close>

definition demo_state :: state where
  "demo_state =
     \<lparr>metric_objects = load_metric_objects demo_catalogue, modules_cache = [],
      eval_dict = [], trace = []\<rparr>"

section \<open>Properties\<close>

subsection \<open>Reconciliation\<close>

text \<open>
  Claim C3. For every prediction table \<open>P\<close> and ground-truth table \<open>G\<close>, the
  reconciled ground-truth table holds exactly the rows of \<open>G\<close> whose identifier
  string occurs among the identifier strings of \<open>P\<close> (each as often as \<open>G\<close>
  has it), the prediction table keeps every row, and both tables are sorted ascending
  by the identifier, compared as a string.
\<close>

theorem reconcile_exact_sorted:
  "mset (fst (reconcile P G)) = filter_mset (\<lambda>r. rowid r \<in> rowid ` set P) (mset G)
   \<and> mset (snd (reconcile P G)) = mset P
   \<and> sorted (map rowid (fst (reconcile P G)))
   \<and> sorted (map rowid (snd (reconcile P G)))"
  by (simp add: reconcile_def sort_values_def match_truth_def)

text \<open>
  The order is the one of strings, not of numbers: \<open>''10''\<close> comes before
  \<open>''2''\<close>.
\<close>

lemma rowid_order_is_textual:
  "map rowid (sort_values [\<lparr>rowid = ''2'', labels = ''b'', bounds = None\<rparr>,
                           \<lparr>rowid = ''10'', labels = ''a'', bounds = None\<rparr>]) = [''10'', ''2'']"
  by code_simp

subsection \<open>Dictionaries and the vocabulary\<close>

text \<open>
  Facts on dictionaries, on \<^verbatim>\<open>list.index\<close> and on the fitted vocabulary.
\<close>

lemma set_update_cases: "x \<in> set (AList.update k v al) \<Longrightarrow> x = (k, v) \<or> x \<in> set al"
  by (induction al) (auto split: if_splits)

lemma update_fresh: "k \<notin> fst ` set al \<Longrightarrow> AList.update k v al = al @ [(k, v)]"
  by (induction al) auto

lemma count_key_distinct:
  "distinct (map fst d) \<Longrightarrow> map_of d m = Some v \<Longrightarrow> length (filter (\<lambda>kv. fst kv = m) d) = 1"
proof (induction d)
  case Nil then show ?case by simp
next
  case (Cons a d)
  show ?case
  proof (cases "fst a = m")
    case True
    then have "m \<notin> fst ` set d" using Cons.prems(1) by auto
    then have "filter (\<lambda>kv. fst kv = m) d = []" by (auto simp: filter_empty_conv)
    with True show ?thesis by simp
  next
    case False
    with Cons show ?thesis by (cases a) auto
  qed
qed

lemma index_Some_iff: "x \<in> set xs \<Longrightarrow> \<exists>i. index xs x = Some i \<and> i < length xs \<and> xs ! i = x"
  by (induction xs) auto

lemma index_SomeD: "index xs x = Some i \<Longrightarrow> i < length xs \<and> xs ! i = x"
  by (induction xs arbitrary: i) (auto split: if_splits)

lemma set_fit: "set (fit y) = \<Union> (set ` set y)" by (simp add: fit_def)

lemma distinct_fit: "distinct (fit y)" by (simp add: fit_def)

lemma label_dict_aux:
  "distinct (map fst acc @ classes) \<Longrightarrow>
   fold (\<lambda>(i, label) d. AList.update label (xs ! i) d) (enumerate n classes) acc
     = acc @ map (\<lambda>(i, label). (label, xs ! i)) (enumerate n classes)"
proof (induction classes arbitrary: n acc)
  case Nil
  then show ?case by simp
next
  case (Cons c cs)
  have fresh: "c \<notin> fst ` set acc" using Cons.prems by auto
  have d: "distinct (map fst (acc @ [(c, xs ! n)]) @ cs)" using Cons.prems by auto
  show ?case using Cons.IH[OF d, of "Suc n"] by (simp add: update_fresh[OF fresh])
qed

lemma enumerate_zip_nth:
  "n + length classes \<le> length xs \<Longrightarrow>
   map (\<lambda>(i, label). (label, xs ! i)) (enumerate n classes) = zip classes (drop n xs)"
proof (induction classes arbitrary: n)
  case Nil then show ?case by simp
next
  case (Cons c cs)
  then have "n < length xs" by simp
  then have "drop n xs = xs ! n # drop (Suc n) xs" by (simp add: Cons_nth_drop_Suc)
  then show ?case using Cons.IH[of "Suc n"] Cons.prems by simp
qed

lemma label_dict_zip:
  "distinct classes \<Longrightarrow> length xs = length classes \<Longrightarrow> label_dict classes xs = zip classes xs"
  using label_dict_aux[of "[]" classes xs 0] enumerate_zip_nth[of 0 classes xs]
  by (simp add: label_dict_def)

subsection \<open>The matrices\<close>

lemma build_matrices_fields:
  "build_matrices f t T R = Inr L \<Longrightarrow> eval_type L = t \<and> truth_df L = T \<and> results_df L = R"
  by (auto simp: build_matrices_def build_multi_def build_regression_def build_default_def Let_def
           split: if_splits sum.splits)


lemma build_multi_classes:
  "build_multi f t truth results = Inr L \<Longrightarrow>
   eval_type L = t \<and>
   label_classes L = fit (map (\<lambda>r. str_split (labels r)) truth @ map (\<lambda>r. str_split (labels r)) results)"
  by (auto simp: build_multi_def Let_def split: if_splits sum.splits)

lemma hasnans_sorted: "hasnans (map confidence (sort_values P)) = hasnans (map confidence P)"
  by (simp add: hasnans_def sort_values_def)

lemma fill_row_found:
  "\<forall>ic \<in> set ecols. snd ic \<in> set classes \<Longrightarrow>
   fill_row f classes pc ri ecols acc \<noteq> Inl (NotInList x)"
proof (induction ecols arbitrary: acc)
  case Nil
  then show ?case by simp
next
  case (Cons ic rest)
  obtain i c where ic: "ic = (i, c)" by (cases ic)
  with Cons.prems have "c \<in> set classes" by simp
  then obtain p where p: "index classes c = Some p" using index_Some_iff by metis
  show ?case using Cons.IH Cons.prems
    by (simp add: ic p split: option.splits)
qed

lemma fill_matrix_found:
  "\<forall>ir \<in> set erows. set (snd ir) \<subseteq> set classes \<Longrightarrow>
   fill_matrix f classes pc erows \<noteq> Inl (NotInList x)"
proof (induction erows)
  case Nil
  then show ?case by simp
next
  case (Cons ir rest)
  obtain i r where ir: "ir = (i, r)" by (cases ir)
  have "\<forall>ic \<in> set (enumerate 0 r). snd ic \<in> set classes"
    using Cons.prems ir by (auto simp: in_set_enumerate_eq)
  from fill_row_found[OF this]
  have "fill_row f classes pc i (enumerate 0 r) (replicate (length classes) 0) \<noteq> Inl (NotInList x)" .
  then show ?case using Cons.IH Cons.prems
    by (auto simp: ir split: sum.splits)
qed

lemma build_multi_found: "build_multi f t truth results \<noteq> Inl (NotInList x)"
proof -
  let ?prl = "map (\<lambda>r. str_split (labels r)) results"
  let ?cls = "fit (map (\<lambda>r. str_split (labels r)) truth @ ?prl)"
  have "\<forall>ir \<in> set (enumerate 0 ?prl). set (snd ir) \<subseteq> set ?cls"
    by (auto simp: in_set_enumerate_eq set_fit)
  from fill_matrix_found[OF this]
  have "build_confidence f ?cls ?prl (str_split_col (map confidence results)) \<noteq> Inl (NotInList x)"
    by (simp add: build_confidence_def)
  then show ?thesis
    by (auto simp: build_multi_def Let_def split: sum.splits)
qed

lemma fill_row_spec:
  assumes "fill_row f cls pc ri (enumerate n r) acc = Inr out"
  shows "length out = length acc"
    and "\<And>j. (\<forall>c\<in>set r. index cls c \<noteq> Some j) \<Longrightarrow> out ! j = acc ! j"
    and "\<And>k. k < length r \<Longrightarrow> (\<forall>k'. k < k' \<and> k' < length r \<longrightarrow> r ! k' \<noteq> r ! k) \<Longrightarrow>
           length acc = length cls \<Longrightarrow>
           \<exists>toks j. ri < length pc \<and> pc ! ri = Some toks \<and> n + k < length toks \<and>
                    index cls (r ! k) = Some j \<and> f (toks ! (n + k)) = Some (out ! j)"
  using assms
proof (induction r arbitrary: n acc)
  case Nil
  { case 1 then show ?case by simp }
  { case 2 then show ?case by simp }
  { case 3 then show ?case by simp }
next
  case (Cons col rest)
  {
    case 1
    then obtain p toks v where s: "index cls col = Some p" "ri < length pc" "pc ! ri = Some toks"
        "n < length toks" "f (toks ! n) = Some v"
        "fill_row f cls pc ri (enumerate (Suc n) rest) (acc[p := v]) = Inr out"
      by (auto split: option.splits if_splits)
    from Cons.IH(1)[OF s(6)] show ?case by simp
  next
    case (2 j)
    from 2(2) obtain p toks v where s: "index cls col = Some p" "ri < length pc" "pc ! ri = Some toks"
        "n < length toks" "f (toks ! n) = Some v"
        "fill_row f cls pc ri (enumerate (Suc n) rest) (acc[p := v]) = Inr out"
      by (auto split: option.splits if_splits)
    have "j \<noteq> p" using 2(1) s(1) by auto
    moreover have "out ! j = (acc[p := v]) ! j" using Cons.IH(2)[OF _ s(6)] 2(1) by simp
    ultimately show ?case by simp
  next
    case (3 k)
    from 3(4) obtain p toks v where s: "index cls col = Some p" "ri < length pc" "pc ! ri = Some toks"
        "n < length toks" "f (toks ! n) = Some v"
        "fill_row f cls pc ri (enumerate (Suc n) rest) (acc[p := v]) = Inr out"
      by (auto split: option.splits if_splits)
    show ?case
    proof (cases k)
      case 0
      have notin: "col \<notin> set rest"
      proof
        assume "col \<in> set rest"
        then obtain i where "i < length rest" "rest ! i = col" by (auto simp: in_set_conv_nth)
        with 3(2) 0 show False by (auto dest: spec[of _ "Suc i"])
      qed
      have "\<forall>c\<in>set rest. index cls c \<noteq> Some p"
      proof
        fix c assume c: "c \<in> set rest"
        show "index cls c \<noteq> Some p"
        proof
          assume "index cls c = Some p"
          then have "cls ! p = c" using index_SomeD by metis
          moreover have "cls ! p = col" using s(1) index_SomeD by metis
          ultimately show False using c notin by simp
        qed
      qed
      from Cons.IH(2)[OF this s(6)] have "out ! p = (acc[p := v]) ! p" .
      moreover have "p < length acc" using s(1) 3(3) index_SomeD by metis
      ultimately have "out ! p = v" by simp
      with s 0 show ?thesis by simp
    next
      case (Suc k')
      have a: "k' < length rest" using 3(1) Suc by simp
      have b: "\<forall>k''. k' < k'' \<and> k'' < length rest \<longrightarrow> rest ! k'' \<noteq> rest ! k'"
        using 3(2) Suc by (auto dest: spec[of _ "Suc _"])
      have c: "length (acc[p := v]) = length cls" using 3(3) by simp
      from Cons.IH(3)[OF a b c s(6)] Suc show ?thesis by simp
    qed
  }
qed

lemma fill_matrix_spec:
  assumes "fill_matrix f cls pc (enumerate n rows) = Inr M"
  shows "length M = length rows \<and>
         (\<forall>i < length rows. fill_row f cls pc (n + i) (enumerate 0 (rows ! i))
                               (replicate (length cls) 0) = Inr (M ! i))"
  using assms
proof (induction rows arbitrary: n M)
  case Nil
  then show ?case by simp
next
  case (Cons r rest)
  from Cons.prems obtain row M' where s:
      "fill_row f cls pc n (enumerate 0 r) (replicate (length cls) 0) = Inr row"
      "fill_matrix f cls pc (enumerate (Suc n) rest) = Inr M'" "M = row # M'"
    by (auto split: sum.splits)
  from Cons.IH[OF s(2)] s(1,3) show ?case
    by (auto simp: nth_Cons split: nat.splits)
qed

text \<open>
  The confidence matrix is built whenever every prediction row has at least as many
  confidence tokens as label tokens and the tokens that are read parse as numbers.
\<close>

lemma fill_row_total:
  assumes "\<forall>ic \<in> set ecols. snd ic \<in> set cls \<and> fst ic < length toks \<and> f (toks ! fst ic) \<noteq> None"
    and "ri < length pc" and "pc ! ri = Some toks"
  shows "\<exists>out. fill_row f cls pc ri ecols acc = Inr out"
  using assms(1)
proof (induction ecols arbitrary: acc)
  case Nil
  then show ?case by simp
next
  case (Cons ic rest)
  obtain i c where ic: "ic = (i, c)" by (cases ic)
  with Cons.prems have c: "c \<in> set cls" and i: "i < length toks" and v: "f (toks ! i) \<noteq> None"
    by auto
  from c obtain p where p: "index cls c = Some p" using index_Some_iff by metis
  from v obtain x where x: "f (toks ! i) = Some x" by auto
  from Cons.IH[of "acc[p := x]"] Cons.prems
  show ?case by (simp add: ic p i x assms(2,3))
qed

lemma fill_matrix_total:
  assumes "\<forall>ir \<in> set erows. set (snd ir) \<subseteq> set cls \<and> fst ir < length pc \<and>
             (\<exists>toks. pc ! fst ir = Some toks \<and> length (snd ir) \<le> length toks \<and>
                     (\<forall>k < length (snd ir). f (toks ! k) \<noteq> None))"
  shows "\<exists>M. fill_matrix f cls pc erows = Inr M"
  using assms
proof (induction erows)
  case Nil
  then show ?case by simp
next
  case (Cons ir rest)
  obtain i r where ir: "ir = (i, r)" by (cases ir)
  with Cons.prems obtain toks where t: "set r \<subseteq> set cls" "i < length pc" "pc ! i = Some toks"
      "length r \<le> length toks" "\<forall>k < length r. f (toks ! k) \<noteq> None"
    by auto
  have "\<forall>ic \<in> set (enumerate 0 r). snd ic \<in> set cls \<and> fst ic < length toks \<and>
           f (toks ! fst ic) \<noteq> None"
    using t(1,4,5) by (auto simp: in_set_enumerate_eq)
  from fill_row_total[OF this t(2,3)]
  obtain out where "fill_row f cls pc i (enumerate 0 r) (replicate (length cls) 0) = Inr out"
    by blast
  moreover from Cons.IH Cons.prems obtain M where "fill_matrix f cls pc rest = Inr M" by auto
  ultimately show ?case by (simp add: ir)
qed

lemma build_multi_total:
  assumes "\<forall>r \<in> set results. \<exists>cell. confidence r = Some cell \<and>
             length (str_split (labels r)) \<le> length (str_split cell) \<and>
             (\<forall>k < length (str_split (labels r)). f (str_split cell ! k) \<noteq> None)"
  shows "\<exists>L. build_multi f t truth results = Inr L"
proof -
  let ?prl = "map (\<lambda>r. str_split (labels r)) results"
  let ?cls = "fit (map (\<lambda>r. str_split (labels r)) truth @ ?prl)"
  let ?pc = "str_split_col (map confidence results)"
  have "\<forall>ir \<in> set (enumerate 0 ?prl). set (snd ir) \<subseteq> set ?cls \<and> fst ir < length ?pc \<and>
             (\<exists>toks. ?pc ! fst ir = Some toks \<and> length (snd ir) \<le> length toks \<and>
                     (\<forall>k < length (snd ir). f (toks ! k) \<noteq> None))"
  proof
    fix ir assume a: "ir \<in> set (enumerate 0 ?prl)"
    from a have "fst ir < length results" "snd ir = ?prl ! fst ir"
      by (auto simp: in_set_enumerate_eq)
    then have "fst ir < length results" "ir = (fst ir, str_split (labels (results ! fst ir)))"
      by (simp_all add: prod_eq_iff)
    then obtain i where i: "i < length results" "ir = (i, str_split (labels (results ! i)))"
      by blast
    from assms i(1) obtain cell where cell: "confidence (results ! i) = Some cell"
        "length (str_split (labels (results ! i))) \<le> length (str_split cell)"
        "\<forall>k < length (str_split (labels (results ! i))). f (str_split cell ! k) \<noteq> None"
      using nth_mem by blast
    have "set (str_split (labels (results ! i))) \<subseteq> set ?cls"
      using i(1) by (auto simp: set_fit)
    moreover have "?pc ! i = Some (str_split cell)" using i(1) cell(1) by (simp add: str_split_col_def)
    moreover have "i < length ?pc" using i(1) by (simp add: str_split_col_def)
    ultimately have "set (str_split (labels (results ! i))) \<subseteq> set ?cls \<and> i < length ?pc \<and>
             (\<exists>toks. ?pc ! i = Some toks \<and>
                     length (str_split (labels (results ! i))) \<le> length toks \<and>
                     (\<forall>k < length (str_split (labels (results ! i))). f (toks ! k) \<noteq> None))"
      using cell(2,3) by blast
    then show "set (snd ir) \<subseteq> set ?cls \<and> fst ir < length ?pc \<and>
             (\<exists>toks. ?pc ! fst ir = Some toks \<and> length (snd ir) \<le> length toks \<and>
                     (\<forall>k < length (snd ir). f (toks ! k) \<noteq> None))"
      unfolding i(2) fst_conv snd_conv .
  qed
  from fill_matrix_total[OF this] obtain M where "build_confidence f ?cls ?prl ?pc = Inr M"
    by (auto simp: build_confidence_def)
  then show ?thesis by (simp add: build_multi_def Let_def)
qed

subsection \<open>The dispatch loop\<close>

text \<open>
  The result mapping is what the invocations that returned account for, and the cache
  stays a part of the import system.
\<close>

lemma replay_append: "replay env L (a @ b) d = replay env L b (replay env L a d)"
  by (induction env L a d rule: replay.induct) (auto split: option.splits outcome.splits)

lemma replay_opened: "replay env L (Opened p # tr) d = replay env L tr d"
  by simp


lemma distinct_replay: "distinct (map fst d) \<Longrightarrow> distinct (map fst (replay env L tr d))"
  by (induction env L tr d rule: replay.induct)
     (auto split: option.splits outcome.splits simp: distinct_update)

lemma replay_untouched:
  "\<forall>p args. Invoked p m args \<notin> set tr \<Longrightarrow> map_of (replay env L tr d) m = map_of d m"
  by (induction env L tr d rule: replay.induct)
     (auto split: option.splits outcome.splits simp: update_conv')

lemma replay_last_wins:
  assumes "call env p m args = Some (Returns r)" and "\<forall>p' args'. Invoked p' m args' \<notin> set C"
  shows "map_of (replay env L (A @ Invoked p m args # C) d) m = Some (normalize_result L r)"
  using assms by (simp add: replay_append replay_untouched update_conv')

lemma invoke_spec:
  assumes "invoke L st ref m modl = (e, st')" and "import_module env (package m) = Some modl"
  shows "modules_cache st' = modules_cache st"
    and "\<exists>new. trace st' = trace st @ new \<and> eval_dict st' = replay env L new (eval_dict st)"
  using assms
  by (auto simp: invoke_def Let_def call_def split: option.splits sum.splits outcome.splits if_splits)

lemma dispatch_spec:
  assumes "dispatch env L st ref = (e, st')" and "cache_ok env st"
  shows "cache_ok env st'"
    and "\<exists>new. trace st' = trace st @ new \<and> eval_dict st' = replay env L new (eval_dict st)"
proof -
  have "cache_ok env st' \<and>
        (\<exists>new. trace st' = trace st @ new \<and> eval_dict st' = replay env L new (eval_dict st))"
  proof (cases "map_of (metric_objects st) ref")
    case None
    with assms show ?thesis by (simp add: dispatch_def)
  next
    case (Some m)
    show ?thesis
    proof (cases "map_of (modules_cache st) (package m)")
      case cached: (Some modl)
      then have imp: "import_module env (package m) = Some modl"
        using assms(2) by (simp add: cache_ok_def)
      have inv: "invoke L st ref m modl = (e, st')"
        using assms(1) Some cached by (simp add: dispatch_def)
      show ?thesis
        using invoke_spec[OF inv imp] assms(2) by (simp add: cache_ok_def)
    next
      case uncached: None
      show ?thesis
      proof (cases "import_module env (package m)")
        case None
        with assms Some uncached show ?thesis by (simp add: dispatch_def)
      next
        case imp: (Some modl)
        let ?st = "st\<lparr>modules_cache := AList.update (package m) modl (modules_cache st)\<rparr>"
        have inv: "invoke L ?st ref m modl = (e, st')"
          using assms(1) Some uncached imp by (simp add: dispatch_def)
        have "cache_ok env ?st"
          using assms(2) imp by (auto simp: cache_ok_def update_conv')
        then show ?thesis
          using invoke_spec[OF inv imp] by (simp add: cache_ok_def)
      qed
    qed
  qed
  then show "cache_ok env st'"
    and "\<exists>new. trace st' = trace st @ new \<and> eval_dict st' = replay env L new (eval_dict st)"
    by blast+
qed

lemma run_metrics_spec:
  assumes "run_metrics env L st refs = (e, st')" and "cache_ok env st"
  shows "cache_ok env st' \<and>
         (\<exists>new. trace st' = trace st @ new \<and> eval_dict st' = replay env L new (eval_dict st))"
  using assms
proof (induction refs arbitrary: st)
  case Nil
  then show ?case by auto
next
  case (Cons ref rest)
  obtain e1 st1 where d: "dispatch env L st ref = (e1, st1)" by (cases "dispatch env L st ref")
  note s1 = dispatch_spec[OF d Cons.prems(2)]
  show ?case
  proof (cases e1)
    case (Some err)
    with Cons.prems d have "st' = st1" by simp
    with s1 show ?thesis by simp
  next
    case None
    with Cons.prems d have r: "run_metrics env L st1 rest = (e, st')" by simp
    from Cons.IH[OF r s1(1)] s1(2) show ?thesis
      by (auto simp: replay_append)
  qed
qed

text \<open>
  A run changes nothing in the stored descriptors but, possibly, \<^verbatim>\<open>default_args\<close>.
\<close>

lemma frame_refl: "frame tr objs objs"
  by (simp add: frame_def)

lemma frame_trans:
  assumes "frame t1 a b" and "frame t2 b c"
  shows "frame (t1 @ t2) a c"
  unfolding frame_def
proof (intro conjI allI impI)
  fix k assume "map_of a k = None"
  then show "map_of c k = None" using assms by (simp add: frame_def)
next
  fix k m assume km: "map_of a k = Some m"
  from assms(1) km obtain m1 where m1: "map_of b k = Some m1" "package m1 = package m"
      "method_name m1 = method_name m" "data_parameters m1 = data_parameters m"
      "default_args m1 = default_args m \<or>
         (\<exists>d. default_args m = Some d \<and> d \<noteq> []) \<and>
         (\<exists>args. default_args m1 = Some args \<and> Invoked (package m) (method_name m) args \<in> set t1)"
    unfolding frame_def by blast
  from assms(2) m1(1) obtain m2 where m2: "map_of c k = Some m2" "package m2 = package m1"
      "method_name m2 = method_name m1" "data_parameters m2 = data_parameters m1"
      "default_args m2 = default_args m1 \<or>
         (\<exists>d. default_args m1 = Some d \<and> d \<noteq> []) \<and>
         (\<exists>args. default_args m2 = Some args \<and> Invoked (package m1) (method_name m1) args \<in> set t2)"
    unfolding frame_def by blast
  have "default_args m2 = default_args m \<or>
        (\<exists>d. default_args m = Some d \<and> d \<noteq> []) \<and>
        (\<exists>args. default_args m2 = Some args \<and> Invoked (package m) (method_name m) args \<in> set (t1 @ t2))"
    using m1(2,3,5) m2(5) by (auto, metis)
  with m1 m2 show "\<exists>m'. map_of c k = Some m' \<and> package m' = package m \<and> method_name m' = method_name m \<and>
               data_parameters m' = data_parameters m \<and>
               (default_args m' = default_args m \<or>
                (\<exists>d. default_args m = Some d \<and> d \<noteq> []) \<and>
                (\<exists>args. default_args m' = Some args \<and>
                        Invoked (package m) (method_name m) args \<in> set (t1 @ t2)))"
    by simp
qed

lemma frame_update:
  assumes "map_of objs ref = Some m" and "default_args m = Some d" and "d \<noteq> []"
    and "Invoked (package m) (method_name m) args \<in> set tr"
  shows "frame tr objs (AList.update ref (m\<lparr>default_args := Some args\<rparr>) objs)"
  using assms by (auto simp: frame_def update_conv')

lemma invoke_frame:
  assumes "invoke L st ref m modl = (e, st')" and "map_of (metric_objects st) ref = Some m"
  shows "\<exists>new. trace st' = trace st @ new \<and> frame new (metric_objects st) (metric_objects st')"
proof (cases "modl (method_name m)")
  case None
  with assms show ?thesis by (auto simp: invoke_def frame_refl)
next
  case (Some f)
  show ?thesis
  proof (cases "bind_args L (data_parameters m) (case default_args m of None \<Rightarrow> [] | Some d \<Rightarrow> d)")
    case (Inl err)
    with assms Some show ?thesis by (auto simp: invoke_def frame_refl)
  next
    case (Inr args)
    let ?ev = "Invoked (package m) (method_name m) args"
    let ?objs = "(case default_args m of
                    None \<Rightarrow> metric_objects st
                  | Some d \<Rightarrow> if d = [] then metric_objects st
                      else AList.update ref (m\<lparr>default_args := Some args\<rparr>) (metric_objects st))"
    have fr: "frame [?ev] (metric_objects st) ?objs"
      using assms(2) by (auto split: option.splits intro: frame_refl frame_update)
    have fr2: "\<And>x. frame ([?ev] @ x) (metric_objects st) ?objs"
      using frame_trans[OF fr frame_refl] by blast
    have "metric_objects st' = ?objs \<and> (\<exists>x. trace st' = trace st @ [?ev] @ x)"
      using assms(1) Some Inr by (auto simp: invoke_def Let_def split: outcome.splits)
    then show ?thesis using fr2 by metis
  qed
qed

lemma dispatch_frame:
  assumes "dispatch env L st ref = (e, st')"
  shows "\<exists>new. trace st' = trace st @ new \<and> frame new (metric_objects st) (metric_objects st')"
proof (cases "map_of (metric_objects st) ref")
  case None
  with assms show ?thesis by (simp add: dispatch_def frame_refl)
next
  case (Some m)
  show ?thesis
  proof (cases "map_of (modules_cache st) (package m)")
    case cached: (Some modl)
    have "invoke L st ref m modl = (e, st')"
      using assms Some cached by (simp add: dispatch_def)
    from invoke_frame[OF this Some] show ?thesis .
  next
    case uncached: None
    show ?thesis
    proof (cases "import_module env (package m)")
      case None
      with assms Some uncached show ?thesis by (simp add: dispatch_def frame_refl)
    next
      case imp: (Some modl)
      let ?st = "st\<lparr>modules_cache := AList.update (package m) modl (modules_cache st)\<rparr>"
      have inv: "invoke L ?st ref m modl = (e, st')"
        using assms Some uncached imp by (simp add: dispatch_def)
      have "map_of (metric_objects ?st) ref = Some m" using Some by simp
      from invoke_frame[OF inv this] show ?thesis by simp
    qed
  qed
qed

lemma run_metrics_frame:
  assumes "run_metrics env L st refs = (e, st')"
  shows "\<exists>new. trace st' = trace st @ new \<and> frame new (metric_objects st) (metric_objects st')"
  using assms
proof (induction refs arbitrary: st)
  case Nil
  then show ?case by (auto simp: frame_refl)
next
  case (Cons ref rest)
  obtain e1 st1 where d: "dispatch env L st ref = (e1, st1)" by (cases "dispatch env L st ref")
  from dispatch_frame[OF d] obtain n1 where n1: "trace st1 = trace st @ n1"
      "frame n1 (metric_objects st) (metric_objects st1)" by blast
  show ?case
  proof (cases e1)
    case (Some err)
    with Cons.prems d have "st' = st1" by simp
    with n1 show ?thesis by blast
  next
    case None
    with Cons.prems d have r: "run_metrics env L st1 rest = (e, st')" by simp
    from Cons.IH[OF r] obtain n2 where n2: "trace st' = trace st1 @ n2"
      "frame n2 (metric_objects st1) (metric_objects st')" by blast
    from frame_trans[OF n1(2) n2(2)] n1(1) n2(1) show ?thesis by auto
  qed
qed








lemma scores_free_bind:
  "scores_free args \<Longrightarrow> (\<forall>M. v \<noteq> Bound PredictionScores M) \<Longrightarrow> scores_free (bind name c v args)"
  by (auto simp: scores_free_def bind_def split: option.splits dest!: set_update_cases)

lemma bind_args_scores_free:
  assumes "hasnans (map confidence (results_df L))" and "bind_args L dp args = Inr args'"
    and "scores_free args"
  shows "scores_free args'"
proof -
  let ?a3 = "bind (prediction_labels dp) True (Bound PredictionLabels (results_labels_matrix L))
      (bind (truth_bounds dp) (\<not> hasnans (map bounds (truth_df L)))
         (Bound TruthBounds (Column (map bounds (truth_df L))))
         (bind (truth_labels dp) True (Bound TruthLabels (truth_labels_matrix L)) args))"
  have a3: "scores_free ?a3" using assms(3) by (intro scores_free_bind) auto
  have "args' = bind (prediction_bounds dp) (\<not> hasnans (map bounds (results_df L)))
                    (Bound PredictionBounds (Column (map bounds (results_df L)))) ?a3"
    using assms(1,2) by (auto simp: bind_args_def Let_def split: option.splits if_splits)
  then show ?thesis using a3 by (simp add: scores_free_bind)
qed

lemma invoke_inv5:
  assumes nan: "hasnans (map confidence (results_df L))"
    and inv: "invoke L st ref m modl = (e, st')"
    and mem: "(ref, m) \<in> set (metric_objects st)"
    and I: "inv5 st"
  shows "inv5 st'"
proof (cases "modl (method_name m)")
  case None
  with inv I show ?thesis by (auto simp: invoke_def inv5_def)
next
  case (Some f)
  show ?thesis
  proof (cases "bind_args L (data_parameters m) (case default_args m of None \<Rightarrow> [] | Some d \<Rightarrow> d)")
    case (Inl err)
    with inv Some I show ?thesis by (auto simp: invoke_def)
  next
    case (Inr args)
    have "scores_free (case default_args m of None \<Rightarrow> [] | Some d \<Rightarrow> d)"
      using I mem by (auto simp: inv5_def scores_free_def split: option.splits)
    from bind_args_scores_free[OF nan Inr this] have sf: "scores_free args" .
    show ?thesis
      using inv Some Inr I sf
      by (auto simp: invoke_def Let_def inv5_def split: outcome.splits option.splits if_splits
               dest!: set_update_cases)
  qed
qed

lemma dispatch_inv5:
  assumes nan: "hasnans (map confidence (results_df L))"
    and d: "dispatch env L st ref = (e, st')"
    and I: "inv5 st"
  shows "inv5 st'"
proof (cases "map_of (metric_objects st) ref")
  case None
  with d I show ?thesis by (simp add: dispatch_def)
next
  case (Some m)
  then have mem: "(ref, m) \<in> set (metric_objects st)" by (rule map_of_SomeD)
  show ?thesis
  proof (cases "map_of (modules_cache st) (package m)")
    case cached: (Some modl)
    have "invoke L st ref m modl = (e, st')"
      using d Some cached by (simp add: dispatch_def)
    from invoke_inv5[OF nan this mem I] show ?thesis .
  next
    case uncached: None
    show ?thesis
    proof (cases "import_module env (package m)")
      case None
      with d Some uncached I show ?thesis by (simp add: dispatch_def)
    next
      case imp: (Some modl)
      let ?st = "st\<lparr>modules_cache := AList.update (package m) modl (modules_cache st)\<rparr>"
      have inv: "invoke L ?st ref m modl = (e, st')"
        using d Some uncached imp by (simp add: dispatch_def)
      have "(ref, m) \<in> set (metric_objects ?st)" "inv5 ?st" using mem I by (simp_all add: inv5_def)
      from invoke_inv5[OF nan inv this] show ?thesis .
    qed
  qed
qed

lemma run_metrics_inv5:
  assumes "hasnans (map confidence (results_df L))"
    and "run_metrics env L st refs = (e, st')" and "inv5 st"
  shows "inv5 st'"
  using assms(2,3)
proof (induction refs arbitrary: st)
  case Nil
  then show ?case by simp
next
  case (Cons ref rest)
  obtain e1 st1 where d: "dispatch env L st ref = (e1, st1)" by (cases "dispatch env L st ref")
  note i1 = dispatch_inv5[OF assms(1) d Cons.prems(2)]
  show ?case
  proof (cases e1)
    case (Some err)
    with Cons.prems d i1 show ?thesis by simp
  next
    case None
    with Cons.prems d have "run_metrics env L st1 rest = (e, st')" by simp
    from Cons.IH[OF this i1] show ?thesis .
  qed
qed

lemma load_values:
  "(k, m) \<in> set (fold (\<lambda>metric_dict objs.
             let metric_object = deserialize_model metric_dict
             in AList.update (metric_key metric_object) metric_object objs) C acc)
   \<Longrightarrow> (k, m) \<in> set acc \<or> (\<exists>d \<in> set C. m = deserialize_model d)"
  by (induction C arbitrary: acc) (auto simp: Let_def dest!: set_update_cases)

lemma load_scores_free:
  "(k, m) \<in> set (load_metric_objects C) \<Longrightarrow> default_args m = Some d \<Longrightarrow> scores_free d"
  unfolding load_metric_objects_def
  by (drule load_values) (auto simp: deserialize_model_def scores_free_def)

subsection \<open>The whole function\<close>

text \<open>
  The function from the dispatch loop onwards, and the whole function once the tables
  are read and the matrices are built.
\<close>

lemma assess_run:
  assumes D: "defaults_json env = Inr D" and C: "metrics_json env = Inr C"
  shows "\<exists>e st' new.
           run_metrics env L
             \<lparr>metric_objects = load_metric_objects C, modules_cache = [], eval_dict = [],
              trace = tr @ [Opened (path_join (module_dir env) ''defaults.json''),
                            Opened (path_join (module_dir env) ''metrics.json'')]\<rparr>
             (select_metrics D (load_metric_objects C) (eval_type L)) = (e, st') \<and>
           trace st' = tr @ [Opened (path_join (module_dir env) ''defaults.json''),
                             Opened (path_join (module_dir env) ''metrics.json'')] @ new \<and>
           eval_dict st' = replay env L new [] \<and>
           assess env L out tr =
             (case e of
                Some err \<Rightarrow> (Some err, trace st')
              | None \<Rightarrow> (None, trace st' @ [Wrote (report_name env out) (JObject (eval_dict st'))]))"
proof -
  let ?st = "\<lparr>metric_objects = load_metric_objects C, modules_cache = [], eval_dict = [],
              trace = tr @ [Opened (path_join (module_dir env) ''defaults.json''),
                            Opened (path_join (module_dir env) ''metrics.json'')]\<rparr>"
  let ?refs = "select_metrics D (load_metric_objects C) (eval_type L)"
  obtain e st' where r: "run_metrics env L ?st ?refs = (e, st')"
    by (cases "run_metrics env L ?st ?refs")
  have "cache_ok env ?st" by (simp add: cache_ok_def)
  from run_metrics_spec[OF r this] obtain new where
    n: "trace st' = trace ?st @ new" "eval_dict st' = replay env L new (eval_dict ?st)" by blast
  have "assess env L out tr =
             (case e of
                Some err \<Rightarrow> (Some err, trace st')
              | None \<Rightarrow> (None, trace st' @ [Wrote (report_name env out) (JObject (eval_dict st'))]))"
    using D C r by (simp add: assess_def Let_def split: option.splits)
  with r n show ?thesis by simp
qed

lemma perform_assessment_assess:
  assumes "format_supported fmt"
    and "read_predictions env (path_join ip ''predictions.csv'') = Inr P"
    and "read_ground_truth env (path_join gt ''ground_truth.csv'') = Inr G"
    and "build_matrices (float64 env) t (fst (reconcile P G)) (snd (reconcile P G)) = Inr L"
  shows "perform_assessment env t ip fmt gt out =
           assess env L out [Opened (path_join ip ''predictions.csv''),
                             Opened (path_join gt ''ground_truth.csv'')]"
  using assms by (cases "reconcile P G") (simp add: perform_assessment_def Let_def)

lemma assess_trace: "\<exists>rest. snd (assess env L out tr) = tr @ rest"
proof (cases "defaults_json env")
  case (Inl e)
  then show ?thesis by (simp add: assess_def Let_def)
next
  case D: (Inr D)
  show ?thesis
  proof (cases "metrics_json env")
    case (Inl e)
    with D show ?thesis by (simp add: assess_def Let_def)
  next
    case (Inr C)
    from assess_run[OF D Inr, of L tr out] show ?thesis
      by (auto split: option.splits)
  qed
qed

lemma assess_scores_free:
  assumes "hasnans (map confidence (results_df L))"
    and "\<forall>p m args. Invoked p m args \<in> set tr \<longrightarrow> scores_free args"
    and "Invoked p m args \<in> set (snd (assess env L out tr))"
  shows "scores_free args"
proof (cases "defaults_json env")
  case (Inl e)
  with assms show ?thesis by (auto simp: assess_def Let_def)
next
  case D: (Inr D)
  show ?thesis
  proof (cases "metrics_json env")
    case (Inl e)
    with D assms show ?thesis by (auto simp: assess_def Let_def)
  next
    case C: (Inr C)
    let ?st = "\<lparr>metric_objects = load_metric_objects C, modules_cache = [], eval_dict = [],
                 trace = (tr @ [Opened (path_join (module_dir env) ''defaults.json'')]) @
                         [Opened (path_join (module_dir env) ''metrics.json'')]\<rparr>"
    obtain e st' where r: "run_metrics env L ?st (select_metrics D (load_metric_objects C) (eval_type L)) = (e, st')"
      by (cases "run_metrics env L ?st (select_metrics D (load_metric_objects C) (eval_type L))")
    have "inv5 ?st" using assms(2) by (auto simp: inv5_def dest: load_scores_free)
    from run_metrics_inv5[OF assms(1) r this] have i: "inv5 st'" .
    have "Invoked p m args \<in> set (trace st')"
      using assms(3) D C r by (auto simp: assess_def Let_def split: option.splits)
    with i show ?thesis by (auto simp: inv5_def)
  qed
qed

lemma demo_locals_built:
  "build_matrices demo_float64 ''MultilabelClassification''
     (fst (reconcile demo_predictions demo_truth)) (snd (reconcile demo_predictions demo_truth))
   = Inr demo_locals"
  by code_simp

subsection \<open>Packages that do not resolve\<close>

text \<open>
  In general: the first entry whose package is neither cached nor importable ends the
  loop, whatever follows it.
\<close>

lemma unresolvable_package_raises:
  assumes "map_of (metric_objects st) ref = Some m"
    and "map_of (modules_cache st) (package m) = None"
    and "import_module env (package m) = None"
  shows "run_metrics env L st (ref # rest) = (Some (ModuleNotFoundError (package m)), st)"
  using assms by (simp add: dispatch_def)

text \<open>
  Claim C1 says that a package that does not resolve is logged and skipped, that the
  remaining metrics run and that the report is written. The code has the branch that
  would do so (lines 185-187), but \<^verbatim>\<open>import_module\<close> never returns a false
  value: it raises, nothing handles the exception, and the run ends there. On the demo
  tables with the default set \<^verbatim>\<open>nosuch.metrics.jaccard_score\<close>,
  \<^verbatim>\<open>sklearn.metrics.accuracy_score\<close> the exception leaves the function, nothing is
  logged, \<^verbatim>\<open>accuracy_score\<close> is never invoked and no report is written.
\<close>

theorem unresolvable_package_aborts:
  "perform_assessment
     (demo_env demo_predictions
        [(''MultilabelClassification'',
          [''nosuch.metrics.jaccard_score'', ''sklearn.metrics.accuracy_score''])])
     ''MultilabelClassification'' ''in'' ''predictions'' ''gt'' ''out''
   = (Some (ModuleNotFoundError ''nosuch.metrics''),
      [Opened ''in/predictions.csv'', Opened ''gt/ground_truth.csv'',
       Opened ''harness/defaults.json'', Opened ''harness/metrics.json''])"
  by code_simp

subsection \<open>The format check\<close>

text \<open>
  The check of lines 44-47. A format that the test rejects raises at once: the only
  event is the logged message. A format that it accepts goes on to open the
  predictions file.
\<close>

lemma format_rejected:
  "\<not> format_supported fmt \<Longrightarrow>
   perform_assessment env t p fmt g out =
     (Some (Exception (unsupported_msg fmt)), [Logged (unsupported_msg fmt)])"
  by (simp add: perform_assessment_def)

lemma format_accepted:
  assumes "format_supported fmt"
  shows "\<exists>rest. snd (perform_assessment env t p fmt g out) = Opened (path_join p ''predictions.csv'') # rest"
proof (cases "read_predictions env (path_join p ''predictions.csv'')")
  case (Inl e)
  with assms show ?thesis by (simp add: perform_assessment_def Let_def)
next
  case P: (Inr P)
  show ?thesis
  proof (cases "read_ground_truth env (path_join g ''ground_truth.csv'')")
    case (Inl e)
    with assms P show ?thesis by (simp add: perform_assessment_def Let_def)
  next
    case G: (Inr G)
    show ?thesis
    proof (cases "build_matrices (float64 env) t (fst (reconcile P G)) (snd (reconcile P G))")
      case (Inl e)
      with assms P G show ?thesis
        by (cases "reconcile P G") (simp add: perform_assessment_def Let_def)
    next
      case (Inr L)
      from perform_assessment_assess[OF assms P G Inr]
        assess_trace[of env L out "[Opened (path_join p ''predictions.csv''),
                             Opened (path_join g ''ground_truth.csv'')]"]
      show ?thesis by auto
    qed
  qed
qed

text \<open>
  Claim C2 says that the function proceeds exactly when the format is the string
  \<^verbatim>\<open>predictions\<close>. The test of line 44 is \<^verbatim>\<open>not in\<close> on two strings, which
  is the substring test, while the message of line 45 says that only
  \<^verbatim>\<open>predictions\<close> is supported. For the format \<^verbatim>\<open>pred\<close>, which is not
  \<^verbatim>\<open>predictions\<close>, the function does not raise at the check: in every environment
  it goes on to open the predictions file.
\<close>

theorem format_check_accepts_substring:
  "format_supported ''pred'' \<and> ''pred'' \<noteq> ''predictions'' \<and>
   (\<exists>rest. snd (perform_assessment env t p ''pred'' g out)
             = Opened (path_join p ''predictions.csv'') # rest)"
proof -
  have f: "format_supported ''pred''" by (simp add: format_supported_def)
  from format_accepted[OF f] f show ?thesis by simp
qed

subsection \<open>Invocations that raise\<close>

text \<open>
  One step of the loop: an invocation that raises leaves the result mapping as it was,
  and the loop goes on with the next entry.
\<close>

lemma raising_invocation_continues:
  assumes "map_of (metric_objects st) ref = Some m"
    and "map_of (modules_cache st) (package m) = Some modl"
    and "modl (method_name m) = Some f"
    and "bind_args L (data_parameters m) (case default_args m of None \<Rightarrow> [] | Some d \<Rightarrow> d) = Inr args"
    and "f args = Raises"
  shows "\<exists>st1. dispatch env L st ref = (None, st1) \<and> eval_dict st1 = eval_dict st \<and>
               run_metrics env L st (ref # rest) = run_metrics env L st1 rest"
  using assms by (simp add: dispatch_def invoke_def Let_def)



subsection \<open>A confidence column with a missing value\<close>

text \<open>
  Claim C5. If some row of the prediction table has no confidence, then in that run no
  invocation, of any metric and for any evaluation type, has the confidence matrix
  among its arguments.
\<close>

theorem confidence_all_or_nothing:
  assumes "read_predictions env (path_join eval_input_path ''predictions.csv'') = Inr P"
    and "hasnans (map confidence P)"
    and "Invoked p m args \<in> set (snd (perform_assessment env t eval_input_path fmt gt out))"
  shows "(n, Bound PredictionScores M) \<notin> set args"
proof -
  have "scores_free args"
  proof (cases "format_supported fmt")
    case False
    with assms(3) show ?thesis by (simp add: perform_assessment_def)
  next
    case True
    show ?thesis
    proof (cases "read_ground_truth env (path_join gt ''ground_truth.csv'')")
      case (Inl e)
      with True assms show ?thesis by (auto simp: perform_assessment_def Let_def)
    next
      case G: (Inr G)
      show ?thesis
      proof (cases "build_matrices (float64 env) t (sort_values (match_truth P G)) (sort_values P)")
        case (Inl e)
        with True G assms show ?thesis by (auto simp: perform_assessment_def Let_def reconcile_def)
      next
        case (Inr L)
        from build_matrices_fields[OF Inr] assms(2)
        have nan: "hasnans (map confidence (results_df L))" by (simp add: hasnans_sorted)
        have "Invoked p m args \<in> set (snd (assess env L out
                 ([Opened (path_join eval_input_path ''predictions.csv'')] @
                  [Opened (path_join gt ''ground_truth.csv'')])))"
          using True G Inr assms(1,3) by (auto simp: perform_assessment_def Let_def reconcile_def)
        from assess_scores_free[OF nan _ this] show ?thesis by simp
      qed
    qed
  qed
  then show ?thesis by (simp add: scores_free_def)
qed

text \<open>
  On the demo tables without a confidence for one row, \<^verbatim>\<open>roc_auc_score\<close>
  declares \<^verbatim>\<open>y_score\<close> and is invoked with \<^verbatim>\<open>y_true\<close> alone.
\<close>

theorem confidence_all_or_nothing_witness:
  "hasnans (map confidence demo_predictions_nan) \<and>
   Invoked ''sklearn.metrics'' ''roc_auc_score''
     [(''y_true'', Bound TruthLabels (Indicator [[1, 1, 0], [0, 1, 1], [1, 1, 0]]))]
     \<in> set (snd (perform_assessment
                   (demo_env demo_predictions_nan
                      [(''MultilabelClassification'',
                        [''sklearn.metrics.roc_auc_score'', ''sklearn.metrics.accuracy_score''])])
                   ''MultilabelClassification'' ''in'' ''predictions'' ''gt'' ''out'')) \<and>
   (''y_score'', Bound PredictionScores (Scores []))
     \<notin> set [(''y_true'', Bound TruthLabels (Indicator [[1, 1, 0], [0, 1, 1], [1, 1, 0]]))]"
proof -
  let ?env = "demo_env demo_predictions_nan
                      [(''MultilabelClassification'',
                        [''sklearn.metrics.roc_auc_score'', ''sklearn.metrics.accuracy_score''])]"
  have r: "read_predictions ?env (path_join ''in'' ''predictions.csv'') = Inr demo_predictions_nan"
    by code_simp
  have n: "hasnans (map confidence demo_predictions_nan)" by code_simp
  have i: "Invoked ''sklearn.metrics'' ''roc_auc_score''
             [(''y_true'', Bound TruthLabels (Indicator [[1, 1, 0], [0, 1, 1], [1, 1, 0]]))]
           \<in> set (snd (perform_assessment ?env ''MultilabelClassification'' ''in''
                          ''predictions'' ''gt'' ''out''))"
    by code_simp
  from confidence_all_or_nothing[OF r n i, of "''y_score''" "Scores []"] n i show ?thesis by simp
qed

subsection \<open>Array results\<close>

text \<open>
  Claim C6. In a multilabel or multiclass run the vocabulary is the fitted one. An
  array result as long as the vocabulary becomes a mapping whose keys are the
  vocabulary labels in vocabulary order and whose value at the \<open>i\<close>-th label is the
  \<open>i\<close>-th element of the array; an array of any other length is emitted as the list
  of its elements.
\<close>

theorem normalize_ndarray:
  assumes "is_multi t" and "build_matrices f t truth results = Inr L"
  shows "label_classes L =
           fit (map (\<lambda>r. str_split (labels r)) truth @ map (\<lambda>r. str_split (labels r)) results)
     \<and> (length xs = length (label_classes L) \<longrightarrow>
          (\<exists>d. normalize_result L (NdArray xs) = JObject d \<and> map fst d = label_classes L \<and>
               (\<forall>i < length xs. map_of d (label_classes L ! i) = Some (xs ! i))))
     \<and> (length xs \<noteq> length (label_classes L) \<longrightarrow> normalize_result L (NdArray xs) = JArray xs)"
proof -
  from assms have b: "build_multi f t truth results = Inr L" by (simp add: build_matrices_def)
  note c = build_multi_classes[OF b]
  have dis: "distinct (label_classes L)" using c by (simp add: distinct_fit)
  have "normalize_result L (NdArray xs) = JObject (zip (label_classes L) xs)
        \<and> map fst (zip (label_classes L) xs) = label_classes L
        \<and> (\<forall>i < length xs. map_of (zip (label_classes L) xs) (label_classes L ! i) = Some (xs ! i))"
    if len: "length xs = length (label_classes L)"
  proof (intro conjI allI impI)
    show "normalize_result L (NdArray xs) = JObject (zip (label_classes L) xs)"
      using assms(1) conjunct1[OF c] len label_dict_zip[OF dis len]
      by (simp add: normalize_result_def)
    show "map fst (zip (label_classes L) xs) = label_classes L" using len by simp
    fix i assume "i < length xs"
    then have "(label_classes L ! i, xs ! i) \<in> set (zip (label_classes L) xs)"
      using len by (auto simp: set_zip)
    moreover have "distinct (map fst (zip (label_classes L) xs))" using dis len by simp
    ultimately show "map_of (zip (label_classes L) xs) (label_classes L ! i) = Some (xs ! i)"
      by (rule map_of_is_SomeI[rotated])
  qed
  moreover have "normalize_result L (NdArray xs) = JArray xs"
    if "length xs \<noteq> length (label_classes L)"
    using that assms(1) conjunct1[OF c] by (simp add: normalize_result_def)
  ultimately show ?thesis using c by blast
qed

theorem normalize_ndarray_witness:
  "label_classes demo_locals = [''a'', ''b'', ''c''] \<and>
   (\<exists>d. normalize_result demo_locals (NdArray [JNumber 1, JNumber (2 / 3), JNumber (1 / 2)])
          = JObject d \<and>
        map fst d = [''a'', ''b'', ''c''] \<and>
        map_of d ''a'' = Some (JNumber 1) \<and> map_of d ''b'' = Some (JNumber (2 / 3)) \<and>
        map_of d ''c'' = Some (JNumber (1 / 2))) \<and>
   normalize_result demo_locals (NdArray [JNumber 1, JNumber 0]) = JArray [JNumber 1, JNumber 0]"
proof -
  have m: "is_multi ''MultilabelClassification''" by (simp add: is_multi_def)
  have c: "label_classes demo_locals = [''a'', ''b'', ''c'']" by (simp add: demo_locals_def)
  note th1 = normalize_ndarray[OF m demo_locals_built, of "[JNumber 1, JNumber (2 / 3), JNumber (1 / 2)]",
                unfolded c]
  note th2 = normalize_ndarray[OF m demo_locals_built, of "[JNumber 1, JNumber 0]", unfolded c]
  have len: "length [JNumber 1, JNumber (2 / 3), JNumber (1 / 2)] = length [''a'', ''b'', ''c'']"
    by simp
  from th1[THEN conjunct2, THEN conjunct1, rule_format, OF len]
  obtain d where d:
      "normalize_result demo_locals (NdArray [JNumber 1, JNumber (2 / 3), JNumber (1 / 2)])
         = JObject d"
      "map fst d = [''a'', ''b'', ''c'']"
      "\<forall>i<length [JNumber 1, JNumber (2 / 3), JNumber (1 / 2)].
          map_of d ([''a'', ''b'', ''c''] ! i)
            = Some ([JNumber 1, JNumber (2 / 3), JNumber (1 / 2)] ! i)"
    by (elim exE conjE)
  from d(3)[rule_format, of 0] d(3)[rule_format, of 1] d(3)[rule_format, of 2]
  have v: "map_of d ''a'' = Some (JNumber 1)" "map_of d ''b'' = Some (JNumber (2 / 3))"
    "map_of d ''c'' = Some (JNumber (1 / 2))"
    by simp_all
  from th2[THEN conjunct2, THEN conjunct2]
  have "normalize_result demo_locals (NdArray [JNumber 1, JNumber 0]) = JArray [JNumber 1, JNumber 0]"
    by simp
  with v c d(1,2) show ?thesis by simp
qed

subsection \<open>The confidence matrix\<close>

text \<open>
  Claim C7 says that the entry in the column of the \<open>k\<close>-th label token of a row is
  the row's \<open>k\<close>-th confidence. A label cell may repeat a token, and line 126 then
  writes the same column twice: for the labels \<^verbatim>\<open>a a\<close> with the confidences
  \<^verbatim>\<open>0.9 0.1\<close> the column of the first token holds 0.1, not 0.9.
\<close>

theorem duplicate_label_counterexample:
  "build_matrices demo_float64 ''MultilabelClassification''
     [\<lparr>rowid = ''1'', labels = ''a b'', bounds = None\<rparr>]
     [\<lparr>rowid = ''1'', labels = ''a a'', bounds = None, confidence = Some ''0.9 0.1''\<rparr>]
   = Inr \<lparr>eval_type = ''MultilabelClassification'',
          truth_df = [\<lparr>rowid = ''1'', labels = ''a b'', bounds = None\<rparr>],
          results_df = [\<lparr>rowid = ''1'', labels = ''a a'', bounds = None,
                          confidence = Some ''0.9 0.1''\<rparr>],
          truth_labels_matrix = Indicator [[1, 1]],
          results_labels_matrix = Indicator [[1, 0]],
          confidence_matrix = Some (Scores [[1 / 10, 0]]),
          label_classes = [''a'', ''b'']\<rparr>
   \<and> str_split ''a a'' ! 0 = ''a''
   \<and> index [''a'', ''b''] ''a'' = Some 0
   \<and> demo_float64 (str_split ''0.9 0.1'' ! 0) = Some (9 / 10)"
  by code_simp

text \<open>
  Claim C7, amended. In a multilabel or multiclass run whose confidence column is
  fully populated and whose confidence matrix is built, the confidence matrix and the
  prediction indicator matrix have one row per prediction and one column per
  vocabulary label, in vocabulary order. In each row, the entry of a label that is not
  among the row's label tokens is zero, and the entry of a label that is among them is
  the parsed confidence token at the last position at which the label occurs in the
  row: for a label that occurs once, the token at that label's own position.
\<close>

theorem confidence_matrix_layout:
  assumes multi: "is_multi t" and full: "\<not> hasnans (map confidence results)"
    and built: "build_matrices f t truth results = Inr L"
  shows "\<exists>I M. results_labels_matrix L = Indicator I \<and> confidence_matrix L = Some (Scores M) \<and>
           length I = length results \<and> length M = length results \<and>
           (\<forall>i < length results.
              length (I ! i) = length (label_classes L) \<and>
              length (M ! i) = length (label_classes L) \<and>
              (\<forall>j < length (label_classes L).
                 I ! i ! j = (if label_classes L ! j \<in> set (str_split (labels (results ! i))) then 1 else 0) \<and>
                 (label_classes L ! j \<notin> set (str_split (labels (results ! i))) \<longrightarrow> M ! i ! j = 0) \<and>
                 (\<forall>k < length (str_split (labels (results ! i))).
                    str_split (labels (results ! i)) ! k = label_classes L ! j \<longrightarrow>
                    (\<forall>k'. k < k' \<and> k' < length (str_split (labels (results ! i))) \<longrightarrow>
                          str_split (labels (results ! i)) ! k' \<noteq> label_classes L ! j) \<longrightarrow>
                    (\<exists>cell. confidence (results ! i) = Some cell \<and> k < length (str_split cell) \<and>
                            f (str_split cell ! k) = Some (M ! i ! j)))))"
proof -
  let ?prl = "map (\<lambda>r. str_split (labels r)) results"
  let ?fit = "fit (map (\<lambda>r. str_split (labels r)) truth @ ?prl)"
  let ?cls = "label_classes L"
  let ?pc = "str_split_col (map confidence results)"
  from multi built have b: "build_multi f t truth results = Inr L" by (simp add: build_matrices_def)
  have cls: "?cls = ?fit" using build_multi_classes[OF b] by simp
  have unf: "build_multi f t truth results =
        (case build_confidence f ?fit ?prl ?pc of
           Inl e \<Rightarrow> Inl e
         | Inr m \<Rightarrow> Inr \<lparr>eval_type = t, truth_df = truth, results_df = results,
               truth_labels_matrix = Indicator (transform ?fit (map (\<lambda>r. str_split (labels r)) truth)),
               results_labels_matrix = Indicator (transform ?fit ?prl),
               confidence_matrix = Some (Scores m), label_classes = ?fit\<rparr>)"
    using full by (simp add: build_multi_def Let_def split: sum.splits)
  obtain M where M: "build_confidence f ?fit ?prl ?pc = Inr M"
    using b unf by (cases "build_confidence f ?fit ?prl ?pc") simp_all
  have LI: "results_labels_matrix L = Indicator (transform ?cls ?prl)"
    and LM: "confidence_matrix L = Some (Scores M)"
    using b unf M cls by auto
  from M have fm: "fill_matrix f ?cls ?pc (enumerate 0 ?prl) = Inr M"
    by (simp add: build_confidence_def cls)
  note fms = fill_matrix_spec[OF fm]
  have lenM: "length M = length results" using fms by simp
  have rows: "fill_row f ?cls ?pc i (enumerate 0 (str_split (labels (results ! i))))
            (replicate (length ?cls) 0) = Inr (M ! i)" if "i < length results" for i
    using fms that by simp
  have dis: "distinct ?cls" unfolding cls by (rule distinct_fit)
  have lenI: "length (transform ?cls ?prl) = length results" by (simp add: transform_def)
  have row: "length (transform ?cls ?prl ! i) = length ?cls \<and>
             length (M ! i) = length ?cls \<and>
             (\<forall>j < length ?cls.
                 transform ?cls ?prl ! i ! j = (if ?cls ! j \<in> set (str_split (labels (results ! i))) then 1 else 0) \<and>
                 (?cls ! j \<notin> set (str_split (labels (results ! i))) \<longrightarrow> M ! i ! j = 0) \<and>
                 (\<forall>k < length (str_split (labels (results ! i))).
                    str_split (labels (results ! i)) ! k = ?cls ! j \<longrightarrow>
                    (\<forall>k'. k < k' \<and> k' < length (str_split (labels (results ! i))) \<longrightarrow>
                          str_split (labels (results ! i)) ! k' \<noteq> ?cls ! j) \<longrightarrow>
                    (\<exists>cell. confidence (results ! i) = Some cell \<and> k < length (str_split cell) \<and>
                            f (str_split cell ! k) = Some (M ! i ! j))))"
    if i: "i < length results" for i
  proof -
    let ?r = "str_split (labels (results ! i))"
    note fr = fill_row_spec[OF rows[OF i]]
    have l1: "length (transform ?cls ?prl ! i) = length ?cls" using i by (simp add: transform_def)
    have l2: "length (M ! i) = length ?cls" using fr(1) by simp
    have col: "transform ?cls ?prl ! i ! j = (if ?cls ! j \<in> set ?r then 1 else 0) \<and>
               (?cls ! j \<notin> set ?r \<longrightarrow> M ! i ! j = 0) \<and>
               (\<forall>k < length ?r. ?r ! k = ?cls ! j \<longrightarrow>
                    (\<forall>k'. k < k' \<and> k' < length ?r \<longrightarrow> ?r ! k' \<noteq> ?cls ! j) \<longrightarrow>
                    (\<exists>cell. confidence (results ! i) = Some cell \<and> k < length (str_split cell) \<and>
                            f (str_split cell ! k) = Some (M ! i ! j)))"
      if j: "j < length ?cls" for j
    proof (intro conjI allI impI)
      show "transform ?cls ?prl ! i ! j = (if ?cls ! j \<in> set ?r then 1 else 0)"
        using i j by (simp add: transform_def)
      show "M ! i ! j = 0" if "?cls ! j \<notin> set ?r"
      proof -
        have "\<forall>c\<in>set ?r. index ?cls c \<noteq> Some j"
        proof
          fix c assume c: "c \<in> set ?r"
          show "index ?cls c \<noteq> Some j"
          proof
            assume "index ?cls c = Some j"
            then have "?cls ! j = c" using index_SomeD by metis
            with c that show False by simp
          qed
        qed
        from fr(2)[OF this] j show ?thesis by simp
      qed
      fix k assume k: "k < length ?r" and eq: "?r ! k = ?cls ! j"
        and last: "\<forall>k'. k < k' \<and> k' < length ?r \<longrightarrow> ?r ! k' \<noteq> ?cls ! j"
      have last': "\<forall>k'. k < k' \<and> k' < length ?r \<longrightarrow> ?r ! k' \<noteq> ?r ! k" using last eq by simp
      have len0: "length (replicate (length ?cls) (0::real)) = length ?cls" by simp
      from fr(3)[OF k last' len0] obtain toks j' where t: "i < length ?pc" "?pc ! i = Some toks"
          "k < length toks" "index ?cls (?r ! k) = Some j'" "f (toks ! k) = Some (M ! i ! j')"
        by auto
      from t(4) have "j' < length ?cls" "?cls ! j' = ?r ! k" using index_SomeD by metis+
      with eq j dis have jj: "j' = j" by (simp add: nth_eq_iff_index_eq)
      from t(2) i obtain cell where cell: "confidence (results ! i) = Some cell" "toks = str_split cell"
        by (auto simp: str_split_col_def)
      show "\<exists>cell. confidence (results ! i) = Some cell \<and> k < length (str_split cell) \<and>
                            f (str_split cell ! k) = Some (M ! i ! j)"
        using t(3,5) jj cell by auto
    qed
    from l1 l2 col show ?thesis by blast
  qed
  show ?thesis
  proof (intro exI conjI)
    show "results_labels_matrix L = Indicator (transform ?cls ?prl)" by (rule LI)
    show "confidence_matrix L = Some (Scores M)" by (rule LM)
    show "length (transform ?cls ?prl) = length results" by (rule lenI)
    show "length M = length results" by (rule lenM)
    show "\<forall>i < length results.
              length (transform ?cls ?prl ! i) = length ?cls \<and>
              length (M ! i) = length ?cls \<and>
              (\<forall>j < length ?cls.
                 transform ?cls ?prl ! i ! j = (if ?cls ! j \<in> set (str_split (labels (results ! i))) then 1 else 0) \<and>
                 (?cls ! j \<notin> set (str_split (labels (results ! i))) \<longrightarrow> M ! i ! j = 0) \<and>
                 (\<forall>k < length (str_split (labels (results ! i))).
                    str_split (labels (results ! i)) ! k = ?cls ! j \<longrightarrow>
                    (\<forall>k'. k < k' \<and> k' < length (str_split (labels (results ! i))) \<longrightarrow>
                          str_split (labels (results ! i)) ! k' \<noteq> ?cls ! j) \<longrightarrow>
                    (\<exists>cell. confidence (results ! i) = Some cell \<and> k < length (str_split cell) \<and>
                            f (str_split cell ! k) = Some (M ! i ! j))))"
      using row by (intro allI impI)
  qed
qed

theorem confidence_matrix_layout_witness:
  "\<not> hasnans (map confidence (snd (reconcile demo_predictions demo_truth))) \<and>
   (\<exists>I M. results_labels_matrix demo_locals = Indicator I \<and>
          confidence_matrix demo_locals = Some (Scores M) \<and>
          length I = length (snd (reconcile demo_predictions demo_truth)) \<and>
          length M = length (snd (reconcile demo_predictions demo_truth))) \<and>
   results_labels_matrix demo_locals = Indicator [[1, 0, 1], [0, 1, 1], [1, 1, 0]] \<and>
   confidence_matrix demo_locals = Some (Scores [[4 / 5, 0, 1 / 10], [0, 7 / 10, 3 / 5], [9 / 10, 3 / 5, 0]])"
proof -
  have m: "is_multi ''MultilabelClassification''" by (simp add: is_multi_def)
  have n: "\<not> hasnans (map confidence (snd (reconcile demo_predictions demo_truth)))"
    by code_simp
  from confidence_matrix_layout[OF m n demo_locals_built]
  have "\<exists>I M. results_labels_matrix demo_locals = Indicator I \<and>
          confidence_matrix demo_locals = Some (Scores M) \<and>
          length I = length (snd (reconcile demo_predictions demo_truth)) \<and>
          length M = length (snd (reconcile demo_predictions demo_truth))"
    by (elim exE conjE) (intro exI conjI, assumption+)
  moreover have "results_labels_matrix demo_locals = Indicator [[1, 0, 1], [0, 1, 1], [1, 1, 0]]"
    "confidence_matrix demo_locals = Some (Scores [[4 / 5, 0, 1 / 10], [0, 7 / 10, 3 / 5], [9 / 10, 3 / 5, 0]])"
    by (simp_all add: demo_locals_def)
  ultimately show ?thesis using n by simp
qed

subsection \<open>The stored descriptors\<close>

text \<open>
  Claim C8 says that dispatching leaves \<^verbatim>\<open>default_args\<close> as loaded. Line 196
  takes the descriptor's own dictionary as the arguments when it is not empty, and
  lines 197-210 write the data parameters into it: after \<^verbatim>\<open>f1_score\<close> has been
  dispatched, its \<^verbatim>\<open>default_args\<close> holds the two label matrices as well.
\<close>

theorem default_args_mutated_counterexample:
  "map_option default_args
     (map_of (metric_objects demo_state) ''sklearn.metrics.f1_score'')
     = Some (Some [(''average'', Default JNull)]) \<and>
   map_option default_args
     (map_of (metric_objects
                (snd (run_metrics (demo_env demo_predictions []) demo_locals demo_state
                        [''sklearn.metrics.f1_score''])))
        ''sklearn.metrics.f1_score'')
     = Some (Some [(''average'', Default JNull),
                   (''y_true'', Bound TruthLabels (Indicator [[1, 1, 0], [0, 1, 1], [1, 1, 0]])),
                   (''y_pred'', Bound PredictionLabels (Indicator [[1, 0, 1], [0, 1, 1], [1, 1, 0]]))])"
  by code_simp

text \<open>
  Claim C8, amended. A run of the dispatch loop leaves every stored descriptor under its
  key, with its package, method and data parameters unchanged. Its
  \<^verbatim>\<open>default_args\<close> is unchanged when it was loaded null or empty; otherwise it is
  either unchanged or the argument mapping of one of the descriptor's invocations in
  that run, that is, the loaded mapping with the data parameters bound into it.
\<close>

theorem descriptor_frame:
  assumes "run_metrics env L st refs = (e, st')" and "map_of (metric_objects st) k = Some m"
  shows "\<exists>m'. map_of (metric_objects st') k = Some m' \<and>
              package m' = package m \<and> method_name m' = method_name m \<and>
              data_parameters m' = data_parameters m \<and>
              (default_args m' = default_args m \<or>
               (\<exists>d. default_args m = Some d \<and> d \<noteq> []) \<and>
               (\<exists>args. default_args m' = Some args \<and>
                  Invoked (package m) (method_name m) args
                    \<in> set (drop (length (trace st)) (trace st'))))"
proof -
  from run_metrics_frame[OF assms(1)] obtain new where
    n: "trace st' = trace st @ new" "frame new (metric_objects st) (metric_objects st')" by blast
  from n(1) have "drop (length (trace st)) (trace st') = new" by simp
  with n(2) assms(2) show ?thesis unfolding frame_def by simp
qed

theorem descriptor_frame_witness:
  "\<exists>m'. map_of (metric_objects
                  (snd (run_metrics (demo_env demo_predictions []) demo_locals demo_state
                          [''sklearn.metrics.accuracy_score'', ''sklearn.metrics.f1_score''])))
            ''sklearn.metrics.accuracy_score'' = Some m' \<and>
         package m' = ''sklearn.metrics'' \<and> method_name m' = ''accuracy_score'' \<and>
         data_parameters m' = labels_only \<and> default_args m' = None"
proof -
  let ?run = "run_metrics (demo_env demo_predictions []) demo_locals demo_state
                [''sklearn.metrics.accuracy_score'', ''sklearn.metrics.f1_score'']"
  let ?m = "\<lparr>package = ''sklearn.metrics'', method_name = ''accuracy_score'',
             default_args = None, data_parameters = labels_only\<rparr> :: arg metric"
  have r: "?run = (fst ?run, snd ?run)" by simp
  have m: "map_of (metric_objects demo_state) ''sklearn.metrics.accuracy_score'' = Some ?m"
    by code_simp
  from descriptor_frame[OF r m] show ?thesis by auto
qed

subsection \<open>The vocabulary lookup\<close>

text \<open>
  Claim C9. The vocabulary is fitted over the label rows of the ground truth followed
  by those of the predictions, so the lookup of every label token of every prediction
  row finds a position in it, and the construction of the matrices never ends in the
  not-found error of \<^verbatim>\<open>list.index\<close>.
\<close>

theorem vocabulary_lookup_succeeds:
  "(\<forall>r \<in> set parsed_results_labels. \<forall>col \<in> set r.
      \<exists>label_pos. index (fit (parsed_truth_labels @ parsed_results_labels)) col = Some label_pos
         \<and> label_pos < length (fit (parsed_truth_labels @ parsed_results_labels)))
   \<and> build_multi f t truth results \<noteq> Inl (NotInList x)"
proof -
  have "\<exists>label_pos. index (fit (parsed_truth_labels @ parsed_results_labels)) col = Some label_pos
         \<and> label_pos < length (fit (parsed_truth_labels @ parsed_results_labels))"
    if "r \<in> set parsed_results_labels" "col \<in> set r" for r col
  proof -
    have "col \<in> set (fit (parsed_truth_labels @ parsed_results_labels))"
      using that by (auto simp: set_fit)
    from index_Some_iff[OF this] show ?thesis by blast
  qed
  then show ?thesis using build_multi_found by blast
qed

theorem vocabulary_lookup_succeeds_witness:
  "index (fit ([[''a'', ''b''], [''b'', ''c''], [''a'', ''b'']] @
               [[''a'', ''c''], [''b'', ''c''], [''a'', ''b'']])) ''c'' = Some 2 \<and>
   build_multi demo_float64 ''MultilabelClassification'' demo_truth demo_predictions
     \<noteq> Inl (NotInList ''c'')"
proof -
  have a: "index (fit ([[''a'', ''b''], [''b'', ''c''], [''a'', ''b'']] @
               [[''a'', ''c''], [''b'', ''c''], [''a'', ''b'']])) ''c'' = Some 2"
    by code_simp
  have b: "build_multi demo_float64 ''MultilabelClassification'' demo_truth demo_predictions
     \<noteq> Inl (NotInList ''c'')"
    using vocabulary_lookup_succeeds[of "[[''a'', ''c''], [''b'', ''c''], [''a'', ''b'']]"
                "[[''a'', ''b''], [''b'', ''c''], [''a'', ''b'']]"
                demo_float64 "''MultilabelClassification''" demo_truth demo_predictions "''c''"]
    by blast
  from a b show ?thesis by simp
qed

subsection \<open>Two metrics with one method name\<close>

text \<open>
  Claim C10. The result mapping is keyed by the method name. When a run invokes a
  method name for two packages and both invocations return, and the second is the last
  invocation under that name, the report holds the normalised value of the second
  under that name, and it holds one entry for the name.
\<close>

theorem later_metric_overwrites:
  assumes run: "assess env L out tr0 =
                  (None, tr0 @ A @ Invoked p1 m a1 # B @ Invoked p2 m a2 # Cc @
                         [Wrote file (JObject d)])"
    and first: "call env p1 m a1 = Some (Returns r1)"
    and second: "call env p2 m a2 = Some (Returns r2)"
    and pkgs: "p1 \<noteq> p2"
    and last: "\<forall>p a. Invoked p m a \<notin> set Cc"
  shows "map_of d m = Some (normalize_result L r2) \<and> length (filter (\<lambda>kv. fst kv = m) d) = 1"
proof -
  let ?ops = "[Opened (path_join (module_dir env) ''defaults.json''),
               Opened (path_join (module_dir env) ''metrics.json'')]"
  obtain D where D: "defaults_json env = Inr D"
    using run by (cases "defaults_json env") (auto simp: assess_def Let_def)
  obtain C where C: "metrics_json env = Inr C"
    using run D by (cases "metrics_json env") (auto simp: assess_def Let_def)
  from assess_run[OF D C, of L tr0 out] obtain e st' new where
    "run_metrics env L
             \<lparr>metric_objects = load_metric_objects C, modules_cache = [], eval_dict = [],
              trace = tr0 @ ?ops\<rparr>
             (select_metrics D (load_metric_objects C) (eval_type L)) = (e, st')"
    and tr: "trace st' = tr0 @ ?ops @ new"
    and ed: "eval_dict st' = replay env L new []"
    and a: "assess env L out tr0 =
             (case e of
                Some err \<Rightarrow> (Some err, trace st')
              | None \<Rightarrow> (None, trace st' @ [Wrote (report_name env out) (JObject (eval_dict st'))]))"
    by (elim exE conjE)
  from a run have e: "e = None" by (cases e) auto
  from a run e have "trace st' @ [Wrote (report_name env out) (JObject (eval_dict st'))] =
       (tr0 @ A @ Invoked p1 m a1 # B @ Invoked p2 m a2 # Cc) @ [Wrote file (JObject d)]"
    by simp
  then have t2: "trace st' = tr0 @ A @ Invoked p1 m a1 # B @ Invoked p2 m a2 # Cc"
    and d: "d = eval_dict st'"
    by (simp_all only: append1_eq_conv event.inject json.inject)
  from tr t2 have "?ops @ new = (A @ Invoked p1 m a1 # B) @ Invoked p2 m a2 # Cc" by simp
  then have "replay env L (?ops @ new) [] = replay env L ((A @ Invoked p1 m a1 # B) @ Invoked p2 m a2 # Cc) []"
    by (rule arg_cong)
  then have "d = replay env L ((A @ Invoked p1 m a1 # B) @ Invoked p2 m a2 # Cc) []"
    using ed d by simp
  moreover have "distinct (map fst (replay env L ((A @ Invoked p1 m a1 # B) @ Invoked p2 m a2 # Cc) []))"
    by (rule distinct_replay) simp
  moreover note replay_last_wins[OF second last, of L "A @ Invoked p1 m a1 # B" "[]"]
  ultimately show ?thesis
    by (simp only: count_key_distinct)
qed

text \<open>
  On the demo tables, \<^verbatim>\<open>accuracy_score\<close> of two packages returns 2/3 and then 0;
  the report has the one entry 0.
\<close>

theorem later_metric_overwrites_witness:
  "call (demo_env demo_predictions
           [(''BinaryClassification'',
             [''sklearn.metrics.accuracy_score'', ''other.metrics.accuracy_score''])])
     ''sklearn.metrics'' ''accuracy_score''
     [(''y_true'', Bound TruthLabels (Tokens [Some [''a'', ''b''], Some [''b'', ''c''], Some [''a'', ''b'']])),
      (''y_pred'', Bound PredictionLabels (Tokens [Some [''a'', ''c''], Some [''b'', ''c''], Some [''a'', ''b'']]))]
     = Some (Returns (NpGeneric (JNumber (2 / 3)))) \<and>
   snd (assess (demo_env demo_predictions
           [(''BinaryClassification'',
             [''sklearn.metrics.accuracy_score'', ''other.metrics.accuracy_score''])])
         (build_default ''BinaryClassification'' (fst (reconcile demo_predictions demo_truth))
            (snd (reconcile demo_predictions demo_truth)))
         ''out'' [])
     = [Opened ''harness/defaults.json'', Opened ''harness/metrics.json'',
        Invoked ''sklearn.metrics'' ''accuracy_score''
          [(''y_true'', Bound TruthLabels (Tokens [Some [''a'', ''b''], Some [''b'', ''c''], Some [''a'', ''b'']])),
           (''y_pred'', Bound PredictionLabels (Tokens [Some [''a'', ''c''], Some [''b'', ''c''], Some [''a'', ''b'']]))],
        Invoked ''other.metrics'' ''accuracy_score''
          [(''y_true'', Bound TruthLabels (Tokens [Some [''a'', ''b''], Some [''b'', ''c''], Some [''a'', ''b'']])),
           (''y_pred'', Bound PredictionLabels (Tokens [Some [''a'', ''c''], Some [''b'', ''c''], Some [''a'', ''b'']]))],
        Wrote ''out/eval_results_1700000000.json'' (JObject [(''accuracy_score'', JNumber 0)])] \<and>
   map_of [(''accuracy_score'', JNumber 0)] ''accuracy_score''
     = Some (normalize_result
               (build_default ''BinaryClassification'' (fst (reconcile demo_predictions demo_truth))
                  (snd (reconcile demo_predictions demo_truth)))
               (NpGeneric (JNumber 0))) \<and>
   length (filter (\<lambda>kv. fst kv = ''accuracy_score'') [(''accuracy_score'', JNumber 0)]) = 1"
proof -
  let ?env = "demo_env demo_predictions
           [(''BinaryClassification'',
             [''sklearn.metrics.accuracy_score'', ''other.metrics.accuracy_score''])]"
  let ?L = "build_default ''BinaryClassification'' (fst (reconcile demo_predictions demo_truth))
            (snd (reconcile demo_predictions demo_truth))"
  let ?args = "[(''y_true'', Bound TruthLabels (Tokens [Some [''a'', ''b''], Some [''b'', ''c''], Some [''a'', ''b'']])),
      (''y_pred'', Bound PredictionLabels (Tokens [Some [''a'', ''c''], Some [''b'', ''c''], Some [''a'', ''b'']]))]"
  let ?A = "[Opened ''harness/defaults.json'', Opened ''harness/metrics.json'']"
  have run: "assess ?env ?L ''out'' [] =
               (None, [] @ ?A @ Invoked ''sklearn.metrics'' ''accuracy_score'' ?args # [] @
                      Invoked ''other.metrics'' ''accuracy_score'' ?args # [] @
                      [Wrote ''out/eval_results_1700000000.json''
                         (JObject [(''accuracy_score'', JNumber 0)])])"
    by code_simp
  have c1: "call ?env ''sklearn.metrics'' ''accuracy_score'' ?args
              = Some (Returns (NpGeneric (JNumber (2 / 3))))"
    by code_simp
  have c2: "call ?env ''other.metrics'' ''accuracy_score'' ?args
              = Some (Returns (NpGeneric (JNumber 0)))"
    by code_simp
  have ne: "''sklearn.metrics'' \<noteq> ''other.metrics''" by simp
  have last: "\<forall>p a. Invoked p ''accuracy_score'' a \<notin> set []" by simp
  from later_metric_overwrites[OF run c1 c2 ne last] c1 run show ?thesis by simp
qed

end
